theory Spec2Isabelle
  imports Main "HOL-Library.AList"
begin

section \<open>Data model of the node helper (hybrid mode)\<close>

text \<open>
  The helper is one JavaScript object whose fields are mutated by callbacks that run
  one at a time (timers, promise continuations, push events, socket notifications).
  Each callback is modelled as a function from the helper's state to its new state.
  Everything a callback does to the outside (log lines, socket notifications, timer
  operations, calls on Sonos devices and on the listener singleton) is appended, in
  program order, to the \<open>trace\<close> field of the state.

  JavaScript values that the helper only stores and compares with \<open>===\<close> /
  \<open>!==\<close> are values of \<open>jsval\<close>: \<open>undefined\<close>, \<open>null\<close>, the booleans,
  strings, and the integer-valued numbers (a volume is an integer that the device
  reports). On these values strict equality is equality of the HOL terms. A number
  that can be \<open>NaN\<close> is a \<open>jsnumber\<close> below. The ID of a group of the topology is no name that objects inherit from
  \<open>Object.prototype\<close>, so a lookup by \<open>group.ID\<close> is a lookup among the stored
  keys; a lookup by a \<open>groupId\<close> that a socket notification carries is
  \<open>getProperty\<close> below.
\<close>

datatype jsval = JUndefined | JNull | JBool bool | JNum int | JStr string

type_synonym groupId = string
type_synonym deviceRef = nat
type_synonym healthRef = nat
type_synonym timerId = nat

text \<open>
  A JavaScript number that may be \<open>NaN\<close>: \<open>None\<close> is \<open>NaN\<close>. A track's duration is
  such a number (the Sonos library computes it from the device's answer and yields
  \<open>NaN\<close> for a duration it cannot read). \<open>a === b\<close> on these numbers: \<open>NaN\<close> equals
  nothing, not even itself.
\<close>

type_synonym jsnumber = "int option"

fun strictEquals :: "jsnumber \<Rightarrow> jsnumber \<Rightarrow> bool" where
  "strictEquals (Some a) (Some b) = (a = b)"
| "strictEquals _ _ = False"

text \<open>A track as delivered by \<open>currentTrack()\<close> or a \<open>CurrentTrack\<close> event.\<close>

record track =
  title :: jsval
  artist :: jsval
  album :: jsval
  duration :: jsnumber
  uri :: jsval

text \<open>A group of the topology: \<open>group.ID\<close>, \<open>group.Name\<close>, \<open>group.host\<close>.\<close>

record zoneGroup =
  ID :: groupId
  Name :: string
  host :: string

text \<open>
  One entry of \<open>groupHealth\<close>, with the defaults of \<open>setListenersHybrid\<close>.
  The entries are JavaScript objects: a poll continuation keeps the reference it read
  before its fetches, so the entries live in a store (\<open>healthStore\<close>) and
  \<open>groupHealth\<close> maps a group ID to a reference.
\<close>

record health =
  device :: "deviceRef option"
  playState :: jsval
  consecutiveFailures :: int
  lastTrack :: "track option"
  lastVolume :: jsval
  lastMuted :: jsval

record timeouts =
  discovery :: "int option"
  subscribe :: "int option"
  apiCall :: "int option"
  getAllGroups :: "int option"

definition DEFAULT_TIMEOUTS :: timeouts where
  "DEFAULT_TIMEOUTS =
     \<lparr>discovery = Some 10000, subscribe = Some 5000, apiCall = Some 5000,
      getAllGroups = Some 10000\<rparr>"

text \<open>
  The part of the configuration payload that the hybrid mode reads. A numeric
  option that is missing from the payload is \<open>None\<close>.
\<close>

record config =
  cfgTimeouts :: "timeouts option"
  pollingIntervalPlaying :: "int option"
  pollingIntervalIdle :: "int option"
  subscriptionCheckInterval :: "int option"
  maxConsecutiveFailures :: "int option"
  autoResubscribe :: bool

datatype logLevel = LError | LWarn | LLog

datatype deviceEvent = CurrentTrack | Volume | Muted | PlayState | DeviceError

datatype command = TogglePlayback | Next | SetVolume int

datatype notification =
    SET_SONOS_CURRENT_TRACK zoneGroup track
  | SET_SONOS_VOLUME zoneGroup jsval
  | SET_SONOS_MUTE zoneGroup jsval
  | SET_SONOS_PLAY_STATE zoneGroup jsval

datatype query = QCurrentTrack | QVolume | QMuted | QCurrentState

datatype timerAction = RestartDiscovery | PollCycle | SubscriptionCheck

text \<open>
  Log lines carry the source's template text as written (\<open>${...}\<close> is not expanded),
  without its quotation marks.
\<close>

datatype effect =
    Log logLevel string
  | SendSocketNotification notification
  | SetTimeout timerId timerAction int
  | SetInterval timerId timerAction int
  | ClearTimeout timerId
  | ClearInterval timerId
  | RemoveAllListeners deviceRef deviceEvent
  | AddListener deviceRef deviceEvent
  | StopListener
  | CoordinatorCall zoneGroup command
  | RenewAllSubscriptions deviceRef int
  | CoordinatorQuery zoneGroup query "int option"
  | SubscribeTo zoneGroup deviceRef
  | DiscoverGroups

text \<open>
  The helper's fields, the two fields of the listener singleton that the helper reads
  or writes (\<open>listener.isListening()\<close> and \<open>listener._deviceSubscriptions\<close>, each
  subscription identified by its device), the store of health objects, the supplies of
  timer handles, device objects and health objects, and the trace.
\<close>

record state =
  config :: "config option"
  debug :: bool
  asyncDevice :: "deviceRef option"
  subscribedDevices :: "deviceRef list"
  groupsById :: "(groupId \<times> zoneGroup) list"
  groups :: "zoneGroup list"
  groupHealth :: "(groupId \<times> healthRef) list"
  healthStore :: "healthRef \<Rightarrow> health"
  subscriptionCheckTimer :: "timerId option"
  pollTimeout :: "timerId option"
  isRediscovering :: bool
  isListening :: bool
  deviceSubscriptions :: "deviceRef list option"
  nextTimer :: timerId
  nextDevice :: deviceRef
  nextHealth :: healthRef
  trace :: "effect list"

section \<open>Operations\<close>

definition emit :: "effect list \<Rightarrow> state \<Rightarrow> state" where
  "emit es s = s\<lparr>trace := trace s @ es\<rparr>"

definition debugLog :: "string \<Rightarrow> state \<Rightarrow> state" where
  "debugLog message s =
     (if debug s then emit [Log LLog (''[MMM-Sonos] [DEBUG] '' @ message)] s else s)"

text \<open>\<open>setTimeout(action, ms)\<close>: a fresh handle is returned and the timer is armed.\<close>

definition setTimeout :: "timerAction \<Rightarrow> int \<Rightarrow> state \<Rightarrow> timerId \<times> state" where
  "setTimeout action ms s =
     (nextTimer s, (emit [SetTimeout (nextTimer s) action ms] s)\<lparr>nextTimer := Suc (nextTimer s)\<rparr>)"

definition setInterval :: "timerAction \<Rightarrow> int \<Rightarrow> state \<Rightarrow> timerId \<times> state" where
  "setInterval action ms s =
     (nextTimer s, (emit [SetInterval (nextTimer s) action ms] s)\<lparr>nextTimer := Suc (nextTimer s)\<rparr>)"

text \<open>The five \<open>removeAllListeners\<close> calls made on one device.\<close>

definition removeDeviceListeners :: "deviceRef \<Rightarrow> effect list" where
  "removeDeviceListeners d =
     [RemoveAllListeners d CurrentTrack, RemoveAllListeners d Volume,
      RemoveAllListeners d Muted, RemoveAllListeners d PlayState,
      RemoveAllListeners d DeviceError]"

definition clearSubscriptionCheckTimer :: "state \<Rightarrow> state" where
  "clearSubscriptionCheckTimer s =
     (case subscriptionCheckTimer s of
        None \<Rightarrow> s
      | Some t \<Rightarrow> (emit [ClearInterval t] s)\<lparr>subscriptionCheckTimer := None\<rparr>)"

definition clearPollTimeout :: "state \<Rightarrow> state" where
  "clearPollTimeout s =
     (case pollTimeout s of
        None \<Rightarrow> s
      | Some t \<Rightarrow> (emit [ClearTimeout t] s)\<lparr>pollTimeout := None\<rparr>)"

definition cleanUpSubscribedDevices :: "state \<Rightarrow> state" where
  "cleanUpSubscribedDevices s =
     (emit (concat (map removeDeviceListeners (subscribedDevices s))) s)
       \<lparr>subscribedDevices := []\<rparr>"

definition stopListenerIfListening :: "state \<Rightarrow> state" where
  "stopListenerIfListening s = (if isListening s then emit [StopListener] s else s)"

definition clearDeviceSubscriptions :: "state \<Rightarrow> state" where
  "clearDeviceSubscriptions s =
     (case deviceSubscriptions s of
        None \<Rightarrow> s
      | Some _ \<Rightarrow> s\<lparr>deviceSubscriptions := Some []\<rparr>)"

text \<open>Statements of a function body run in program order.\<close>

definition sequence :: "(state \<Rightarrow> state) list \<Rightarrow> state \<Rightarrow> state" where
  "sequence fs s = fold (\<lambda>f. f) fs s"

text \<open>
  \<open>triggerRediscovery\<close>. \<open>listener.stopListener()\<close> is asynchronous and belongs to
  the library: the call is recorded, \<open>isListening\<close> is left to the library. The
  restart is the timer action \<open>RestartDiscovery\<close>, armed for 2000 ms; its callback is
  \<open>restartDiscovery\<close>, where \<open>discoverGroups()\<close> is recorded as a call.
\<close>

definition triggerRediscovery :: "state \<Rightarrow> state" where
  "triggerRediscovery s =
     (if isRediscovering s
      then debugLog ''Rediscovery already in progress, skipping'' s
      else sequence
        [\<lambda>s. s\<lparr>isRediscovering := True\<rparr>,
         emit [Log LWarn ''[MMM-Sonos] Triggering full rediscovery...''],
         debugLog ''Clearing subscription health check timer'',
         clearSubscriptionCheckTimer,
         debugLog ''Clearing poll timeout (was: ${this.pollTimeout})'',
         clearPollTimeout,
         debugLog ''Cleaning up existing state...'',
         cleanUpSubscribedDevices,
         \<lambda>s. s\<lparr>groupHealth := [], groups := []\<rparr>,
         stopListenerIfListening,
         clearDeviceSubscriptions,
         \<lambda>s. s\<lparr>asyncDevice := None\<rparr>,
         \<lambda>s. snd (setTimeout RestartDiscovery 2000 s)] s)"

definition restartDiscovery :: "state \<Rightarrow> state" where
  "restartDiscovery s = emit [DiscoverGroups] (s\<lparr>isRediscovering := False\<rparr>)"

definition handleListenerError :: "state \<Rightarrow> state" where
  "handleListenerError s =
     triggerRediscovery
       (emit [Log LError ''[MMM-Sonos] Handling listener error, will rediscover...''] s)"

subsection \<open>Timeout wrapper and settled results\<close>

text \<open>
  An external call either resolves, rejects, or is still pending at its deadline.
  \<open>withTimeout\<close> races it against the timer: a pending call is rejected with the
  timeout message. \<open>Promise.allSettled\<close> then reports each call as fulfilled or
  rejected.
\<close>

datatype 'a outcome = Resolves 'a | Rejects string | Pending

datatype 'a settled = Fulfilled 'a | Rejected string

fun withTimeout :: "'a outcome \<Rightarrow> string \<Rightarrow> 'a settled" where
  "withTimeout (Resolves v) errorMessage = Fulfilled v"
| "withTimeout (Rejects e) errorMessage = Rejected e"
| "withTimeout Pending errorMessage = Rejected errorMessage"

fun isFulfilled :: "'a settled \<Rightarrow> bool" where
  "isFulfilled (Fulfilled v) = True"
| "isFulfilled (Rejected e) = False"

text \<open>\<open>a || d\<close> on an optional number: a missing value and 0 are falsy.\<close>

fun orDefault :: "int option \<Rightarrow> int \<Rightarrow> int" where
  "orDefault None d = d"
| "orDefault (Some n) d = (if n = 0 then d else n)"

text \<open>\<open>a ?? d\<close> on an optional number: only a missing value is replaced.\<close>

fun nullishDefault :: "int option \<Rightarrow> int \<Rightarrow> int" where
  "nullishDefault None d = d"
| "nullishDefault (Some n) d = n"

text \<open>\<open>this.config?.timeouts || DEFAULT_TIMEOUTS\<close>.\<close>

definition currentTimeouts :: "state \<Rightarrow> timeouts" where
  "currentTimeouts s =
     (case config s of
        None \<Rightarrow> DEFAULT_TIMEOUTS
      | Some c \<Rightarrow> (case cfgTimeouts c of None \<Rightarrow> DEFAULT_TIMEOUTS | Some t \<Rightarrow> t))"

text \<open>\<open>this.config?.field\<close> for a numeric field.\<close>

definition configNumber :: "(config \<Rightarrow> int option) \<Rightarrow> state \<Rightarrow> int option" where
  "configNumber field s = (case config s of None \<Rightarrow> None | Some c \<Rightarrow> field c)"

subsection \<open>Adaptive polling\<close>

text \<open>
  \<open>Object.values(this.groupHealth)\<close>: one value per key, the binding that a lookup
  of the key finds.
\<close>

definition objectValues :: "(groupId \<times> 'v) list \<Rightarrow> 'v list" where
  "objectValues obj = map snd (AList.clearjunk obj)"

definition isAnyGroupPlaying :: "state \<Rightarrow> bool" where
  "isAnyGroupPlaying s =
     list_ex (\<lambda>h. playState (healthStore s h) = JStr ''playing'')
       (objectValues (groupHealth s))"

definition getPollingInterval :: "state \<Rightarrow> int" where
  "getPollingInterval s =
     (let playingInterval = orDefault (configNumber pollingIntervalPlaying s) 15000;
          idleInterval = orDefault (configNumber pollingIntervalIdle s) 60000
      in if isAnyGroupPlaying s then playingInterval else idleInterval)"

text \<open>
  \<open>schedulePoll\<close>: an armed timer is cleared (the field is overwritten just below),
  then a timer for the poll cycle is armed with the current interval.
\<close>

definition schedulePoll :: "state \<Rightarrow> state" where
  "schedulePoll s =
     sequence
       [\<lambda>s. case pollTimeout s of None \<Rightarrow> s | Some t \<Rightarrow> emit [ClearTimeout t] s,
        \<lambda>s. (let interval = getPollingInterval s
              in sequence
                   [debugLog ''Scheduling poll in ${interval}ms'',
                    \<lambda>s. (case setTimeout PollCycle interval s of
                           (t, s') \<Rightarrow> s'\<lparr>pollTimeout := Some t\<rparr>)] s)] s"


text \<open>
  \<open>pollGroup\<close>, up to the four fetches. The continuation \<open>pollGroupSettled\<close>
  keeps \<open>group\<close>, the health object read here, and \<open>maxFailures\<close>.
\<close>

definition maxFailuresOf :: "state \<Rightarrow> int" where
  "maxFailuresOf s = orDefault (configNumber maxConsecutiveFailures s) 3"

definition pollGroup :: "zoneGroup \<Rightarrow> state \<Rightarrow> state" where
  "pollGroup grp s =
     (case map_of (groupHealth s) (ID grp) of
        None \<Rightarrow> debugLog ''No health state for group ${group.Name}, skipping poll'' s
      | Some h \<Rightarrow>
          (let apiTimeout = apiCall (currentTimeouts s)
           in emit [CoordinatorQuery grp QCurrentTrack apiTimeout,
                    CoordinatorQuery grp QVolume apiTimeout,
                    CoordinatorQuery grp QMuted apiTimeout,
                    CoordinatorQuery grp QCurrentState apiTimeout] s))"

text \<open>
  The four settled results, in the order of the source's array. A fulfilled track
  fetch carries \<open>None\<close> when its value is falsy.
\<close>

record pollResults =
  trackResult :: "track option settled"
  volumeResult :: "jsval settled"
  mutedResult :: "jsval settled"
  stateResult :: "jsval settled"

definition anySucceeded :: "pollResults \<Rightarrow> bool" where
  "anySucceeded results =
     (isFulfilled (trackResult results) \<or> isFulfilled (volumeResult results) \<or>
      isFulfilled (mutedResult results) \<or> isFulfilled (stateResult results))"

definition updateHealth :: "healthRef \<Rightarrow> (health \<Rightarrow> health) \<Rightarrow> state \<Rightarrow> state" where
  "updateHealth h f s = s\<lparr>healthStore := (healthStore s)(h := f (healthStore s h))\<rparr>"

text \<open>
  Comparison by title, artist, album and duration with \<open>!==\<close>; no stored track
  counts as changed.
\<close>

definition trackChanged :: "track option \<Rightarrow> track \<Rightarrow> bool" where
  "trackChanged stored track =
     (case stored of
        None \<Rightarrow> True
      | Some l \<Rightarrow>
          title l \<noteq> title track \<or> artist l \<noteq> artist track \<or>
          album l \<noteq> album track \<or> \<not> strictEquals (duration l) (duration track))"

definition pollTrack :: "zoneGroup \<Rightarrow> healthRef \<Rightarrow> track option settled \<Rightarrow> state \<Rightarrow> state" where
  "pollTrack grp h result s =
     (case result of
        Fulfilled (Some track) \<Rightarrow>
          (let changed = trackChanged (lastTrack (healthStore s h)) track
           in sequence
                [debugLog ''[${group.Name}] Poll track: ${track.title} by ${track.artist}, last: ${health.lastTrack?.title || none}, changed: ${trackChanged}'',
                 \<lambda>s. if changed
                      then emit [SendSocketNotification (SET_SONOS_CURRENT_TRACK grp track)]
                             (updateHealth h (\<lambda>r. r\<lparr>lastTrack := Some track\<rparr>) s)
                      else s] s)
      | _ \<Rightarrow> s)"

definition pollVolume :: "zoneGroup \<Rightarrow> healthRef \<Rightarrow> jsval settled \<Rightarrow> state \<Rightarrow> state" where
  "pollVolume grp h result s =
     (case result of
        Fulfilled volume \<Rightarrow>
          if lastVolume (healthStore s h) \<noteq> volume
          then emit [SendSocketNotification (SET_SONOS_VOLUME grp volume)]
                 (updateHealth h (\<lambda>r. r\<lparr>lastVolume := volume\<rparr>) s)
          else s
      | Rejected e \<Rightarrow> s)"

definition pollMuted :: "zoneGroup \<Rightarrow> healthRef \<Rightarrow> jsval settled \<Rightarrow> state \<Rightarrow> state" where
  "pollMuted grp h result s =
     (case result of
        Fulfilled isMuted \<Rightarrow>
          if lastMuted (healthStore s h) \<noteq> isMuted
          then emit [SendSocketNotification (SET_SONOS_MUTE grp isMuted)]
                 (updateHealth h (\<lambda>r. r\<lparr>lastMuted := isMuted\<rparr>) s)
          else s
      | Rejected e \<Rightarrow> s)"

definition pollState :: "zoneGroup \<Rightarrow> healthRef \<Rightarrow> jsval settled \<Rightarrow> state \<Rightarrow> state" where
  "pollState grp h result s =
     (case result of
        Fulfilled st \<Rightarrow>
          if playState (healthStore s h) \<noteq> st
          then emit [SendSocketNotification (SET_SONOS_PLAY_STATE grp st)]
                 (updateHealth h (\<lambda>r. r\<lparr>playState := st\<rparr>) s)
          else s
      | Rejected e \<Rightarrow> s)"

definition pollGroupSettled ::
  "zoneGroup \<Rightarrow> healthRef \<Rightarrow> int \<Rightarrow> pollResults \<Rightarrow> state \<Rightarrow> state" where
  "pollGroupSettled grp h maxFailures results s =
     (if \<not> anySucceeded results
      then sequence
        [updateHealth h (\<lambda>r. r\<lparr>consecutiveFailures := consecutiveFailures r + 1\<rparr>),
         emit [Log LError ''[MMM-Sonos] Poll failed for ${group.Name} (${health.consecutiveFailures}/${maxFailures})''],
         \<lambda>s. if consecutiveFailures (healthStore s h) \<ge> maxFailures
              then triggerRediscovery s else s] s
      else sequence
        [updateHealth h (\<lambda>r. r\<lparr>consecutiveFailures := 0\<rparr>),
         debugLog ''[${group.Name}] Poll API results: track=${results[0].status}, vol=${results[1].status}, mute=${results[2].status}, state=${results[3].status}'',
         pollTrack grp h (trackResult results),
         pollVolume grp h (volumeResult results),
         pollMuted grp h (mutedResult results),
         pollState grp h (stateResult results)] s)"

text \<open>
  The continuation that \<open>pollGroup\<close> creates in state \<open>s\<close>: it keeps the health
  object found in \<open>s\<close> and the \<open>maxFailures\<close> computed in \<open>s\<close>. No continuation
  is created when the group has no health object.
\<close>

definition pollGroupContinuation ::
  "zoneGroup \<Rightarrow> state \<Rightarrow> (pollResults \<Rightarrow> state \<Rightarrow> state) option" where
  "pollGroupContinuation grp s =
     (case map_of (groupHealth s) (ID grp) of
        None \<Rightarrow> None
      | Some h \<Rightarrow> Some (pollGroupSettled grp h (maxFailuresOf s)))"

text \<open>The poll timer's callback up to the join: \<open>pollAllGroups\<close> starts every group's poll.\<close>

definition pollAllGroups :: "state \<Rightarrow> state" where
  "pollAllGroups s =
     fold pollGroup (groups s) (debugLog ''Polling ${this.groups.length} groups'' s)"

definition pollTimerFired :: "state \<Rightarrow> state" where
  "pollTimerFired s = pollAllGroups (debugLog ''Poll timer fired, starting poll cycle'' s)"

subsection \<open>Subscription health check\<close>

definition renewDeviceSubscriptions :: "deviceRef \<Rightarrow> zoneGroup \<Rightarrow> state \<Rightarrow> state" where
  "renewDeviceSubscriptions dev grp s =
     (let s1 = debugLog ''[${group.Name}] Device ${device.host}, _isSubscribed: ${device._isSubscribed}'' s
      in if \<not> (case deviceSubscriptions s1 of None \<Rightarrow> False | Some subs \<Rightarrow> dev \<in> set subs)
         then triggerRediscovery
                (debugLog ''[${group.Name}] No DeviceSubscription found, triggering rediscovery'' s1)
         else emit [RenewAllSubscriptions dev (orDefault (apiCall (currentTimeouts s1)) 5000)]
                (debugLog ''[${group.Name}] Attempting subscription renewal...'' s1))"

text \<open>The \<open>then\<close> / \<open>catch\<close> of the renewal, on the result of the timeout wrapper.\<close>

definition renewalSettled :: "unit settled \<Rightarrow> state \<Rightarrow> state" where
  "renewalSettled result s =
     (case result of
        Fulfilled _ \<Rightarrow> debugLog ''[${group.Name}] Subscription renewal succeeded'' s
      | Rejected e \<Rightarrow>
          triggerRediscovery
            (emit [Log LWarn ''[MMM-Sonos] Renewal failed for ${group.Name}: ${err.message}, triggering rediscovery''] s))"

text \<open>The body of the \<open>forEach\<close> over the groups.\<close>

definition checkGroupSubscription :: "zoneGroup \<Rightarrow> state \<Rightarrow> state" where
  "checkGroupSubscription grp s =
     (case (case map_of (groupHealth s) (ID grp) of
              None \<Rightarrow> None
            | Some h \<Rightarrow> device (healthStore s h)) of
        None \<Rightarrow>
          triggerRediscovery
            (debugLog ''[${group.Name}] No device reference stored, triggering rediscovery'' s)
      | Some dev \<Rightarrow> renewDeviceSubscriptions dev grp s)"

text \<open>
  The interval callback. The \<open>forEach\<close> runs over the array that \<open>this.groups\<close>
  held when the callback started (a rediscovery assigns a new array).
\<close>

definition subscriptionCheck :: "state \<Rightarrow> state" where
  "subscriptionCheck s =
     (let s1 = debugLog ''Subscription health check triggered'' s
      in if \<not> isAnyGroupPlaying s1
         then debugLog ''Skipping subscription check - no music playing'' s1
         else if groups s1 = []
         then debugLog ''No groups to check'' s1
         else fold checkGroupSubscription (groups s1)
                (debugLog ''Listener has ${listener._deviceSubscriptions?.length || 0} total subscriptions''
                  (debugLog ''Running subscription health check for ${this.groups.length} groups'' s1)))"

definition startSubscriptionHealthCheck :: "state \<Rightarrow> state" where
  "startSubscriptionHealthCheck s =
     (if \<not> (case config s of None \<Rightarrow> False | Some c \<Rightarrow> autoResubscribe c)
      then debugLog ''Auto-resubscribe disabled, skipping subscription health check'' s
      else sequence
        [\<lambda>s. case subscriptionCheckTimer s of None \<Rightarrow> s | Some t \<Rightarrow> emit [ClearInterval t] s,
         \<lambda>s. (case setInterval SubscriptionCheck
                      (orDefault (configNumber subscriptionCheckInterval s) 300000) s of
               (t, s') \<Rightarrow> s'\<lparr>subscriptionCheckTimer := Some t\<rparr>),
         emit [Log LLog ''[MMM-Sonos] Subscription health check started (interval: ${checkInterval}ms)'']] s)"

subsection \<open>Push events\<close>


definition syncHealth :: "zoneGroup \<Rightarrow> (health \<Rightarrow> health) \<Rightarrow> state \<Rightarrow> state" where
  "syncHealth grp f s =
     (case map_of (groupHealth s) (ID grp) of
        None \<Rightarrow> s
      | Some h \<Rightarrow> updateHealth h f s)"

definition onCurrentTrack :: "zoneGroup \<Rightarrow> track \<Rightarrow> state \<Rightarrow> state" where
  "onCurrentTrack grp track s =
     sequence
       [emit [Log LLog ''[MMM-Sonos] [${group.Name}] Track: ${track.title}''],
        syncHealth grp (\<lambda>r. r\<lparr>lastTrack := Some track\<rparr>),
        emit [SendSocketNotification (SET_SONOS_CURRENT_TRACK grp track)]] s"

definition onVolume :: "zoneGroup \<Rightarrow> jsval \<Rightarrow> state \<Rightarrow> state" where
  "onVolume grp volume s =
     sequence
       [debugLog ''[${group.Name}] Volume: ${volume}'',
        syncHealth grp (\<lambda>r. r\<lparr>lastVolume := volume\<rparr>),
        emit [SendSocketNotification (SET_SONOS_VOLUME grp volume)]] s"

definition onMuted :: "zoneGroup \<Rightarrow> jsval \<Rightarrow> state \<Rightarrow> state" where
  "onMuted grp isMuted s =
     sequence
       [debugLog ''[${group.Name}] Muted: ${isMuted}'',
        syncHealth grp (\<lambda>r. r\<lparr>lastMuted := isMuted\<rparr>),
        emit [SendSocketNotification (SET_SONOS_MUTE grp isMuted)]] s"

definition onPlayState :: "zoneGroup \<Rightarrow> jsval \<Rightarrow> state \<Rightarrow> state" where
  "onPlayState grp st s =
     sequence
       [emit [Log LLog ''[MMM-Sonos] [${group.Name}] State: ${state}''],
        syncHealth grp (\<lambda>r. r\<lparr>playState := st\<rparr>),
        emit [SendSocketNotification (SET_SONOS_PLAY_STATE grp st)]] s"

subsection \<open>Starting the hybrid mode\<close>

text \<open>
  \<open>setListenersHybrid\<close>, up to the subscribe calls. Each group gets a new health
  object with the source's defaults; \<open>group.CoordinatorDevice()\<close> returns a new
  device object, whose subscription is requested.
\<close>

definition initialHealth :: health where
  "initialHealth =
     \<lparr>device = None, playState = JStr ''unknown'', consecutiveFailures = 0,
      lastTrack = None, lastVolume = JNull, lastMuted = JNull\<rparr>"

definition initGroupHealth :: "zoneGroup \<Rightarrow> state \<Rightarrow> state" where
  "initGroupHealth grp s =
     s\<lparr>groupHealth := AList.update (ID grp) (nextHealth s) (groupHealth s),
       healthStore := (healthStore s)(nextHealth s := initialHealth),
       nextHealth := Suc (nextHealth s)\<rparr>"

definition subscribeGroup :: "zoneGroup \<Rightarrow> state \<Rightarrow> state" where
  "subscribeGroup grp s =
     (emit [Log LLog ''[MMM-Sonos] Registering hybrid listeners for group ${group.Name} (host ${group.host})'',
            SubscribeTo grp (nextDevice s)] s)
       \<lparr>nextDevice := Suc (nextDevice s)\<rparr>"



text \<open>
  The callback that runs when all subscribe calls have settled: polling is started
  unless the playing interval is 0, then the subscription health check is started.
\<close>

definition subscriptionsSettled :: "state \<Rightarrow> state" where
  "subscriptionsSettled s =
     (let playingInterval = nullishDefault (configNumber pollingIntervalPlaying s) 15000
      in startSubscriptionHealthCheck
           (if playingInterval = 0
            then emit [Log LLog ''[MMM-Sonos] Hybrid mode: Events + health checks (polling disabled)''] s
            else schedulePoll
                   (emit [Log LLog ''[MMM-Sonos] Hybrid mode: Adaptive polling (${playingInterval}ms playing / ${idleInterval}ms idle)''] s)))"

subsection \<open>Control commands\<close>

text \<open>
  \<open>parseInt(volume, 10)\<close>. The argument is converted to a string, leading white
  space is skipped, an optional sign is read, and the longest prefix of decimal digits
  is the value; without a digit the result is \<open>NaN\<close>, which is \<open>None\<close> here.
  The value is kept as the integer that the digits denote; JavaScript takes the
  nearest number or an infinity, for which the clamp to 0..100, the only use of the
  value, gives the same result. Characters are code units below 256.
\<close>

definition isStrWhiteSpaceChar :: "char \<Rightarrow> bool" where
  "isStrWhiteSpaceChar c = ((of_char c :: nat) \<in> {9, 10, 11, 12, 13, 32, 160})"

definition isDigit :: "char \<Rightarrow> bool" where
  "isDigit c = (48 \<le> (of_char c :: nat) \<and> (of_char c :: nat) \<le> 57)"

definition digitValue :: "char \<Rightarrow> int" where
  "digitValue c = int (of_char c) - 48"

definition digitChar :: "nat \<Rightarrow> char" where
  "digitChar d = char_of (48 + d)"

function natToString :: "nat \<Rightarrow> string" where
  "natToString n =
     (if n < 10 then [digitChar n] else natToString (n div 10) @ [digitChar (n mod 10)])"
  by pat_completeness auto
termination
  by (relation "measure (\<lambda>n. n)") auto

declare natToString.simps [simp del]

text \<open>
  \<open>Number.prototype.toString\<close> on an integer-valued number. JavaScript prints a
  number with the fewest significant digits that read back as the same number, and
  \<open>JNum n\<close> is the number that is printed with the significant digits of \<open>n\<close>
  (every integer below \<open>2^53\<close> in magnitude is printed with its own digits). Below
  \<open>10^21\<close> in magnitude the digits are printed in full; from \<open>10^21\<close> on the
  exponent form is printed: the first significant digit, a point and the other
  significant digits if there are any, then \<open>e+\<close> and the exponent.
\<close>

definition stripTrailingZeros :: "string \<Rightarrow> string" where
  "stripTrailingZeros ds = rev (dropWhile (\<lambda>c. c = CHR ''0'') (rev ds))"

definition numberToString :: "int \<Rightarrow> string" where
  "numberToString n =
     (let ds = natToString (nat \<bar>n\<bar>);
          sign = (if n < 0 then [CHR ''-''] else [])
      in if \<bar>n\<bar> < 10 ^ 21 then sign @ ds
         else (let sig = stripTrailingZeros ds
               in sign @ [hd sig] @ (if tl sig = [] then [] else CHR ''.'' # tl sig) @
                  ''e+'' @ natToString (length ds - 1)))"

fun jsToString :: "jsval \<Rightarrow> string" where
  "jsToString JUndefined = ''undefined''"
| "jsToString JNull = ''null''"
| "jsToString (JBool b) = (if b then ''true'' else ''false'')"
| "jsToString (JNum n) = numberToString n"
| "jsToString (JStr s) = s"

definition parseInt :: "jsval \<Rightarrow> jsnumber" where
  "parseInt v =
     (let S = dropWhile isStrWhiteSpaceChar (jsToString v);
          sign = (if S \<noteq> [] \<and> hd S = CHR ''-'' then - 1 else 1);
          S = (if S \<noteq> [] \<and> (hd S = CHR ''+'' \<or> hd S = CHR ''-'') then tl S else S);
          Z = takeWhile isDigit S
      in if Z = [] then None
         else Some (sign * foldl (\<lambda>a c. 10 * a + digitValue c) 0 Z))"

text \<open>\<open>Math.min\<close>, \<open>Math.max\<close> and \<open>isNaN\<close>: \<open>NaN\<close> propagates.\<close>

fun Math_min :: "jsnumber \<Rightarrow> jsnumber \<Rightarrow> jsnumber" where
  "Math_min (Some a) (Some b) = Some (min a b)"
| "Math_min _ _ = None"

fun Math_max :: "jsnumber \<Rightarrow> jsnumber \<Rightarrow> jsnumber" where
  "Math_max (Some a) (Some b) = Some (max a b)"
| "Math_max _ _ = None"

text \<open>
  \<open>this.groupsById[groupId]\<close> with a \<open>groupId\<close> that arrives in a socket
  notification. \<open>groupsById\<close> is a plain object, so the lookup finds a stored key or,
  failing that, a member that every object inherits from \<open>Object.prototype\<close>; the
  inherited members are functions or objects, hence truthy.
\<close>

definition objectPrototypeNames :: "string list" where
  "objectPrototypeNames =
     [''constructor'', ''__proto__'', ''hasOwnProperty'', ''isPrototypeOf'',
      ''propertyIsEnumerable'', ''toLocaleString'', ''toString'', ''valueOf'',
      ''__defineGetter__'', ''__defineSetter__'', ''__lookupGetter__'', ''__lookupSetter__'']"

datatype 'v property = Own 'v | Inherited | Undefined

definition getProperty :: "(string \<times> 'v) list \<Rightarrow> string \<Rightarrow> 'v property" where
  "getProperty obj key =
     (case map_of obj key of
        Some v \<Rightarrow> Own v
      | None \<Rightarrow> if key \<in> set objectPrototypeNames then Inherited else Undefined)"

text \<open>
  The three handlers, up to the device call. On an inherited member
  \<open>group.CoordinatorDevice()\<close> is a call of \<open>undefined\<close>: the handler throws a
  \<open>TypeError\<close>, which is the result \<open>Inl TypeError\<close>.
\<close>

datatype exception = TypeError

definition handleTogglePlayPause :: "groupId \<Rightarrow> state \<Rightarrow> exception + state" where
  "handleTogglePlayPause groupId s =
     (case getProperty (groupsById s) groupId of
        Undefined \<Rightarrow> Inr (emit [Log LError ''[MMM-Sonos] Group not found for ID: ${groupId}''] s)
      | Own grp \<Rightarrow> Inr (emit [CoordinatorCall grp TogglePlayback] s)
      | Inherited \<Rightarrow> Inl TypeError)"

definition handleNext :: "groupId \<Rightarrow> state \<Rightarrow> exception + state" where
  "handleNext groupId s =
     (case getProperty (groupsById s) groupId of
        Undefined \<Rightarrow> Inr (emit [Log LError ''[MMM-Sonos] Group not found for ID: ${groupId}''] s)
      | Own grp \<Rightarrow> Inr (emit [CoordinatorCall grp Next] s)
      | Inherited \<Rightarrow> Inl TypeError)"

definition handleSetVolume :: "groupId \<Rightarrow> jsval \<Rightarrow> state \<Rightarrow> exception + state" where
  "handleSetVolume groupId volume s =
     (case getProperty (groupsById s) groupId of
        Undefined \<Rightarrow> Inr (emit [Log LError ''[MMM-Sonos] Group not found for ID: ${groupId}''] s)
      | found \<Rightarrow>
          (case Math_max (Some 0) (Math_min (Some 100) (parseInt volume)) of
             None \<Rightarrow> Inr (emit [Log LError ''[MMM-Sonos] Invalid volume value''] s)
           | Some v \<Rightarrow>
               (case found of
                  Own grp \<Rightarrow> Inr (emit [CoordinatorCall grp (SetVolume v)] s)
                | _ \<Rightarrow> Inl TypeError)))"

subsection \<open>Callers of the recovery transition\<close>

text \<open>
  Every call site of \<open>triggerRediscovery\<close> in hybrid mode, as the callback that
  contains it: the listener's error handler, a settled group poll, a firing of the
  subscription health check, a settled renewal, and the function itself.
\<close>

datatype escalation =
    FromListenerError
  | FromPollGroup zoneGroup healthRef int pollResults
  | FromSubscriptionCheck
  | FromRenewal "unit settled"
  | DirectCall

fun escalate :: "escalation \<Rightarrow> state \<Rightarrow> state" where
  "escalate FromListenerError s = handleListenerError s"
| "escalate (FromPollGroup grp h maxFailures results) s =
     pollGroupSettled grp h maxFailures results s"
| "escalate FromSubscriptionCheck s = subscriptionCheck s"
| "escalate (FromRenewal result) s = renewalSettled result s"
| "escalate DirectCall s = triggerRediscovery s"



subsection \<open>Observing a callback\<close>

text \<open>What a callback appended to the trace.\<close>

definition newEffects :: "state \<Rightarrow> state \<Rightarrow> effect list" where
  "newEffects s s' = drop (length (trace s)) (trace s')"

text \<open>The line that \<open>debugLog\<close> writes, if any.\<close>

definition debugLine :: "bool \<Rightarrow> string \<Rightarrow> effect list" where
  "debugLine enabled m = (if enabled then [Log LLog (''[MMM-Sonos] [DEBUG] '' @ m)] else [])"

text \<open>
  The effects of a teardown and of a restart: clearing or arming any timer, removing
  listeners, stopping the listener, starting discovery.
\<close>

fun teardownEffect :: "effect \<Rightarrow> bool" where
  "teardownEffect (ClearTimeout t) = True"
| "teardownEffect (ClearInterval t) = True"
| "teardownEffect (SetTimeout t a ms) = True"
| "teardownEffect (SetInterval t a ms) = True"
| "teardownEffect (RemoveAllListeners d e) = True"
| "teardownEffect StopListener = True"
| "teardownEffect DiscoverGroups = True"
| "teardownEffect _ = False"

text \<open>
  \<open>undisturbed s s'\<close>: from \<open>s\<close> to \<open>s'\<close> nothing changed but the contents of health
  objects and the trace, and the trace grew by effects that are no teardown effects.
\<close>

definition undisturbed :: "state \<Rightarrow> state \<Rightarrow> bool" where
  "undisturbed s s' =
     (s'\<lparr>trace := trace s, healthStore := healthStore s\<rparr> = s \<and>
      trace s' = trace s @ newEffects s s' \<and>
      list_all (\<lambda>e. \<not> teardownEffect e) (newEffects s s'))"

fun isTrackEvent :: "effect \<Rightarrow> bool" where
  "isTrackEvent (SendSocketNotification (SET_SONOS_CURRENT_TRACK g t)) = True"
| "isTrackEvent _ = False"

fun isVolumeEvent :: "effect \<Rightarrow> bool" where
  "isVolumeEvent (SendSocketNotification (SET_SONOS_VOLUME g v)) = True"
| "isVolumeEvent _ = False"

fun isMuteEvent :: "effect \<Rightarrow> bool" where
  "isMuteEvent (SendSocketNotification (SET_SONOS_MUTE g v)) = True"
| "isMuteEvent _ = False"

fun isStateEvent :: "effect \<Rightarrow> bool" where
  "isStateEvent (SendSocketNotification (SET_SONOS_PLAY_STATE g v)) = True"
| "isStateEvent _ = False"

fun isNotification :: "effect \<Rightarrow> bool" where
  "isNotification (SendSocketNotification n) = True"
| "isNotification _ = False"

fun isDeviceCall :: "effect \<Rightarrow> bool" where
  "isDeviceCall (CoordinatorCall g c) = True"
| "isDeviceCall (CoordinatorQuery g q t) = True"
| "isDeviceCall (RenewAllSubscriptions d t) = True"
| "isDeviceCall _ = False"

fun armsPollTimer :: "effect \<Rightarrow> bool" where
  "armsPollTimer (SetTimeout t PollCycle ms) = True"
| "armsPollTimer _ = False"

fun isRenewal :: "effect \<Rightarrow> bool" where
  "isRenewal (RenewAllSubscriptions d t) = True"
| "isRenewal _ = False"

subsection \<open>Change detection, field by field\<close>

text \<open>
  What one settled fetch does to the stored value of its field and which notification
  it causes, as functions of the stored value and the result. The lemmas of the next
  section show that the poll continuation computes these.
\<close>

definition trackAfter :: "track option \<Rightarrow> track option settled \<Rightarrow> track option" where
  "trackAfter stored result =
     (case result of
        Fulfilled (Some t) \<Rightarrow> if trackChanged stored t then Some t else stored
      | _ \<Rightarrow> stored)"

definition trackEvents :: "zoneGroup \<Rightarrow> track option \<Rightarrow> track option settled \<Rightarrow> effect list" where
  "trackEvents grp stored result =
     (case result of
        Fulfilled (Some t) \<Rightarrow>
          if trackChanged stored t
          then [SendSocketNotification (SET_SONOS_CURRENT_TRACK grp t)] else []
      | _ \<Rightarrow> [])"

text \<open>The debug line of the track comparison.\<close>

definition trackDebug :: "bool \<Rightarrow> track option settled \<Rightarrow> effect list" where
  "trackDebug enabled result =
     (case result of
        Fulfilled (Some t) \<Rightarrow>
          debugLine enabled ''[${group.Name}] Poll track: ${track.title} by ${track.artist}, last: ${health.lastTrack?.title || none}, changed: ${trackChanged}''
      | _ \<Rightarrow> [])"

definition valueAfter :: "jsval \<Rightarrow> jsval settled \<Rightarrow> jsval" where
  "valueAfter stored result = (case result of Fulfilled v \<Rightarrow> v | Rejected e \<Rightarrow> stored)"

definition valueEvents :: "(jsval \<Rightarrow> notification) \<Rightarrow> jsval \<Rightarrow> jsval settled \<Rightarrow> effect list" where
  "valueEvents mk stored result =
     (case result of
        Fulfilled v \<Rightarrow> if stored \<noteq> v then [SendSocketNotification (mk v)] else []
      | Rejected e \<Rightarrow> [])"

text \<open>Two tracks agree in title, artist, album and duration, each compared with \<open>===\<close>.\<close>

definition sameTrackTuple :: "track \<Rightarrow> track \<Rightarrow> bool" where
  "sameTrackTuple l t =
     (title l = title t \<and> artist l = artist t \<and> album l = album t \<and>
      strictEquals (duration l) (duration t))"

section \<open>Example states\<close>

text \<open>
  A state of normal operation with two groups: the kitchen is playing, the bedroom is paused,
  both subscriptions succeeded, the poll timer and the health check timer are armed.
\<close>

definition defaultConfig :: config where
  "defaultConfig =
     \<lparr>cfgTimeouts = None, pollingIntervalPlaying = Some 15000,
      pollingIntervalIdle = Some 60000, subscriptionCheckInterval = Some 300000,
      maxConsecutiveFailures = Some 3, autoResubscribe = True\<rparr>"

definition kitchen :: zoneGroup where
  "kitchen = \<lparr>ID = ''RINCON_A:1'', Name = ''Kitchen'', host = ''192.168.1.10''\<rparr>"

definition bedroom :: zoneGroup where
  "bedroom = \<lparr>ID = ''RINCON_B:2'', Name = ''Bedroom'', host = ''192.168.1.11''\<rparr>"

definition song1 :: track where
  "song1 =
     \<lparr>title = JStr ''Song1'', artist = JStr ''ArtistX'', album = JStr ''AlbumY'',
      duration = Some 180, uri = JStr ''x-sonos-vli:stream-1''\<rparr>"

definition stableState :: state where
  "stableState =
     \<lparr>config = Some defaultConfig, debug = True, asyncDevice = Some 0,
      subscribedDevices = [1, 2],
      groupsById = [(ID kitchen, kitchen), (ID bedroom, bedroom)],
      groups = [kitchen, bedroom],
      groupHealth = [(ID kitchen, 0), (ID bedroom, 1)],
      healthStore = (\<lambda>_. initialHealth)
        (0 := initialHealth\<lparr>device := Some 1, playState := JStr ''playing'',
                lastTrack := Some song1, lastVolume := JNum 30, lastMuted := JBool False\<rparr>,
         1 := initialHealth\<lparr>device := Some 2, playState := JStr ''paused''\<rparr>),
      subscriptionCheckTimer = Some 1, pollTimeout = Some 0,
      isRediscovering = False, isListening = True,
      deviceSubscriptions = Some [0, 1, 2], nextTimer = 2, nextDevice = 3,
      nextHealth = 2, trace = []\<rparr>"

definition allFailed :: pollResults where
  "allFailed =
     \<lparr>trackResult = withTimeout Pending ''Operation timed out'',
      volumeResult = withTimeout (Rejects ''ECONNREFUSED'') ''Operation timed out'',
      mutedResult = withTimeout Pending ''Operation timed out'',
      stateResult = withTimeout (Rejects ''EHOSTUNREACH'') ''Operation timed out''\<rparr>"

definition partialResults :: pollResults where
  "partialResults =
     \<lparr>trackResult = withTimeout (Resolves (Some (song1\<lparr>uri := JStr ''x-sonos-vli:stream-2''\<rparr>))) ''Operation timed out'',
      volumeResult = withTimeout (Resolves (JNum 35)) ''Operation timed out'',
      mutedResult = withTimeout Pending ''Operation timed out'',
      stateResult = withTimeout (Rejects ''ECONNRESET'') ''Operation timed out''\<rparr>"

definition degradedState :: state where
  "degradedState = updateHealth 0 (\<lambda>r. r\<lparr>consecutiveFailures := 2\<rparr>) stableState"

text \<open>Both groups idle, and the idle interval configured as 0.\<close>

definition idleState :: state where
  "idleState = updateHealth 0 (\<lambda>r. r\<lparr>playState := JStr ''paused''\<rparr>) stableState"

definition zeroIdleState :: state where
  "zeroIdleState = idleState\<lparr>config := Some (defaultConfig\<lparr>pollingIntervalIdle := Some 0\<rparr>)\<rparr>"

text \<open>A playing interval configured as 0: polling is switched off.\<close>

definition zeroPlayingState :: state where
  "zeroPlayingState = stableState\<lparr>config := Some (defaultConfig\<lparr>pollingIntervalPlaying := Some 0\<rparr>)\<rparr>"

text \<open>
  The listener has lost its subscription object for the kitchen's device (handle 1);
  the kitchen's health object still holds the handle.
\<close>

definition unsubscribedState :: state where
  "unsubscribedState = stableState\<lparr>deviceSubscriptions := Some [0, 2]\<rparr>"

text \<open>
  A radio stream whose duration the library could not read: the duration is \<open>NaN\<close>.
  The kitchen's health object holds that track, and a poll delivers the same track.
\<close>

definition radioTrack :: track where
  "radioTrack =
     \<lparr>title = JStr ''Morning Show'', artist = JStr ''Radio One'', album = JNull,
      duration = None, uri = JStr ''x-rincon-mp3radio://stream''\<rparr>"

definition radioState :: state where
  "radioState = updateHealth 0 (\<lambda>r. r\<lparr>lastTrack := Some radioTrack\<rparr>) stableState"

definition radioResults :: pollResults where
  "radioResults =
     \<lparr>trackResult = withTimeout (Resolves (Some radioTrack)) ''Operation timed out'',
      volumeResult = withTimeout (Resolves (JNum 30)) ''Operation timed out'',
      mutedResult = withTimeout (Resolves (JBool False)) ''Operation timed out'',
      stateResult = withTimeout (Resolves (JStr ''playing'')) ''Operation timed out''\<rparr>"


section \<open>Basic facts\<close>

lemma emit_Nil [simp]: "emit [] s = s"
  by (simp add: emit_def)

lemma debugLog_emit:
  "debugLog m s = emit (if debug s then [Log LLog (''[MMM-Sonos] [DEBUG] '' @ m)] else []) s"
  by (simp add: debugLog_def)

lemma undisturbed_refl: "undisturbed s s"
  by (simp add: undisturbed_def newEffects_def)

lemma undisturbed_fields:
  assumes "undisturbed s s'"
  shows "isRediscovering s' = isRediscovering s" "pollTimeout s' = pollTimeout s"
    "subscriptionCheckTimer s' = subscriptionCheckTimer s" "groups s' = groups s"
    "groupHealth s' = groupHealth s" "groupsById s' = groupsById s"
    "subscribedDevices s' = subscribedDevices s" "config s' = config s"
    "debug s' = debug s" "asyncDevice s' = asyncDevice s" "isListening s' = isListening s"
    "deviceSubscriptions s' = deviceSubscriptions s" "nextTimer s' = nextTimer s"
proof -
  from assms have e: "s'\<lparr>trace := trace s, healthStore := healthStore s\<rparr> = s"
    by (simp add: undisturbed_def)
  show "isRediscovering s' = isRediscovering s" using arg_cong [OF e, of isRediscovering] by simp
  show "pollTimeout s' = pollTimeout s" using arg_cong [OF e, of pollTimeout] by simp
  show "subscriptionCheckTimer s' = subscriptionCheckTimer s" using arg_cong [OF e, of subscriptionCheckTimer] by simp
  show "groups s' = groups s" using arg_cong [OF e, of groups] by simp
  show "groupHealth s' = groupHealth s" using arg_cong [OF e, of groupHealth] by simp
  show "groupsById s' = groupsById s" using arg_cong [OF e, of groupsById] by simp
  show "subscribedDevices s' = subscribedDevices s" using arg_cong [OF e, of subscribedDevices] by simp
  show "config s' = config s" using arg_cong [OF e, of config] by simp
  show "debug s' = debug s" using arg_cong [OF e, of debug] by simp
  show "asyncDevice s' = asyncDevice s" using arg_cong [OF e, of asyncDevice] by simp
  show "isListening s' = isListening s" using arg_cong [OF e, of isListening] by simp
  show "deviceSubscriptions s' = deviceSubscriptions s" using arg_cong [OF e, of deviceSubscriptions] by simp
  show "nextTimer s' = nextTimer s" using arg_cong [OF e, of nextTimer] by simp
qed

lemma newEffects_append: "trace s' = trace s @ es \<Longrightarrow> newEffects s s' = es"
  by (simp add: newEffects_def)

lemma undisturbed_trans:
  assumes "undisturbed s s'" and "undisturbed s' s''"
  shows "undisturbed s s''"
proof -
  from assms(1) have e1: "s'\<lparr>trace := trace s, healthStore := healthStore s\<rparr> = s"
    and t1: "trace s' = trace s @ newEffects s s'"
    and l1: "list_all (\<lambda>e. \<not> teardownEffect e) (newEffects s s')"
    by (simp_all add: undisturbed_def)
  from assms(2) have e2: "s''\<lparr>trace := trace s', healthStore := healthStore s'\<rparr> = s'"
    and t2: "trace s'' = trace s' @ newEffects s' s''"
    and l2: "list_all (\<lambda>e. \<not> teardownEffect e) (newEffects s' s'')"
    by (simp_all add: undisturbed_def)
  have "s''\<lparr>trace := trace s, healthStore := healthStore s\<rparr> =
        (s''\<lparr>trace := trace s', healthStore := healthStore s'\<rparr>)
          \<lparr>trace := trace s, healthStore := healthStore s\<rparr>"
    by simp
  also have "\<dots> = s" by (simp only: e2 e1)
  finally have e: "s''\<lparr>trace := trace s, healthStore := healthStore s\<rparr> = s" .
  have t: "trace s'' = trace s @ (newEffects s s' @ newEffects s' s'')"
    using t1 t2 by simp
  then have n: "newEffects s s'' = newEffects s s' @ newEffects s' s''"
    by (rule newEffects_append)
  show ?thesis
    unfolding undisturbed_def using e t n l1 l2 by simp
qed

lemma undisturbed_emit:
  "list_all (\<lambda>e. \<not> teardownEffect e) es \<Longrightarrow> undisturbed s (emit es s)"
  by (simp add: undisturbed_def newEffects_def emit_def)

lemma undisturbed_debugLog: "undisturbed s (debugLog m s)"
  by (simp add: debugLog_emit undisturbed_emit)

lemma undisturbed_updateHealth: "undisturbed s (updateHealth h f s)"
  by (simp add: undisturbed_def newEffects_def updateHealth_def)

lemma triggerRediscovery_guard:
  "isRediscovering s \<Longrightarrow>
   triggerRediscovery s = debugLog ''Rediscovery already in progress, skipping'' s"
  by (simp add: triggerRediscovery_def)

lemma undisturbed_triggerRediscovery:
  "isRediscovering s \<Longrightarrow> undisturbed s (triggerRediscovery s)"
  by (simp add: triggerRediscovery_guard undisturbed_debugLog)

lemma undisturbed_then:
  assumes "undisturbed s (f s)" and "\<And>s'. isRediscovering s' \<Longrightarrow> undisturbed s' (g s')"
    and "isRediscovering s"
  shows "undisturbed s (g (f s))"
proof -
  have "isRediscovering (f s)" using undisturbed_fields(1) [OF assms(1)] assms(3) by simp
  then have "undisturbed (f s) (g (f s))" by (rule assms(2))
  with assms(1) show ?thesis by (rule undisturbed_trans)
qed

lemma undisturbed_handleListenerError:
  "isRediscovering s \<Longrightarrow> undisturbed s (handleListenerError s)"
  unfolding handleListenerError_def
  by (rule undisturbed_then [where f = "emit _"]) (simp_all add: undisturbed_emit undisturbed_triggerRediscovery)

lemma undisturbed_renewalSettled:
  "isRediscovering s \<Longrightarrow> undisturbed s (renewalSettled r s)"
  unfolding renewalSettled_def
  by (cases r) (auto intro!: undisturbed_debugLog undisturbed_then [where f = "emit _"] undisturbed_emit undisturbed_triggerRediscovery)


lemma sequence_Nil: "sequence [] s = s"
  by (simp add: sequence_def)

lemma sequence_Cons: "sequence (f # fs) s = sequence fs (f s)"
  by (simp add: sequence_def)

lemma undisturbed_sequence:
  assumes "\<And>f s'. f \<in> set fs \<Longrightarrow> isRediscovering s' \<Longrightarrow> undisturbed s' (f s')"
    and "isRediscovering s"
  shows "undisturbed s (sequence fs s)"
  using assms
proof (induction fs arbitrary: s)
  case Nil
  show ?case by (simp add: undisturbed_refl sequence_Nil)
next
  case (Cons f fs)
  have step: "undisturbed s (f s)" using Cons.prems by simp
  then have "isRediscovering (f s)" using undisturbed_fields(1) Cons.prems(2) by simp
  then have "undisturbed (f s) (sequence fs (f s))"
    using Cons.IH Cons.prems(1) by simp
  with step show ?case by (simp add: undisturbed_trans sequence_Cons)
qed

lemma undisturbed_fold:
  assumes "\<And>x s'. isRediscovering s' \<Longrightarrow> undisturbed s' (f x s')"
    and "isRediscovering s"
  shows "undisturbed s (fold f xs s)"
  using assms(2)
proof (induction xs arbitrary: s)
  case Nil
  show ?case by (simp add: undisturbed_refl)
next
  case (Cons x xs)
  have step: "undisturbed s (f x s)" using Cons.prems assms(1) by simp
  then have "isRediscovering (f x s)" using undisturbed_fields(1) Cons.prems by simp
  then have "undisturbed (f x s) (fold f xs (f x s))" by (rule Cons.IH)
  with step show ?case by (simp add: undisturbed_trans)
qed

lemma undisturbed_emit_update:
  "list_all (\<lambda>e. \<not> teardownEffect e) es \<Longrightarrow> undisturbed s (emit es (updateHealth h f s))"
  by (blast intro: undisturbed_trans undisturbed_updateHealth undisturbed_emit)

lemma undisturbed_pollTrack: "undisturbed s (pollTrack grp h r s)"
proof (cases r)
  case (Fulfilled v)
  show ?thesis
  proof (cases v)
    case None
    with Fulfilled show ?thesis by (simp add: pollTrack_def undisturbed_refl)
  next
    case (Some t)
    let ?s1 = "debugLog ''[${group.Name}] Poll track: ${track.title} by ${track.artist}, last: ${health.lastTrack?.title || none}, changed: ${trackChanged}'' s"
    have u1: "undisturbed s ?s1" by (rule undisturbed_debugLog)
    have "undisturbed ?s1 (pollTrack grp h r s)"
      using Fulfilled Some
      by (simp add: pollTrack_def Let_def sequence_Cons sequence_Nil undisturbed_refl
          undisturbed_emit_update)
    with u1 show ?thesis by (rule undisturbed_trans)
  qed
next
  case (Rejected e)
  then show ?thesis by (simp add: pollTrack_def undisturbed_refl)
qed

lemma undisturbed_pollVolume: "undisturbed s (pollVolume grp h r s)"
  by (cases r) (simp_all add: pollVolume_def undisturbed_refl undisturbed_emit_update)

lemma undisturbed_pollMuted: "undisturbed s (pollMuted grp h r s)"
  by (cases r) (simp_all add: pollMuted_def undisturbed_refl undisturbed_emit_update)

lemma undisturbed_pollState: "undisturbed s (pollState grp h r s)"
  by (cases r) (simp_all add: pollState_def undisturbed_refl undisturbed_emit_update)

lemma undisturbed_pollGroupSettled:
  assumes "isRediscovering s"
  shows "undisturbed s (pollGroupSettled grp h m results s)"
proof (cases "anySucceeded results")
  case True
  then have "pollGroupSettled grp h m results s =
      sequence
        [updateHealth h (\<lambda>r. r\<lparr>consecutiveFailures := 0\<rparr>),
         debugLog ''[${group.Name}] Poll API results: track=${results[0].status}, vol=${results[1].status}, mute=${results[2].status}, state=${results[3].status}'',
         pollTrack grp h (trackResult results),
         pollVolume grp h (volumeResult results),
         pollMuted grp h (mutedResult results),
         pollState grp h (stateResult results)] s"
    by (simp add: pollGroupSettled_def)
  also have "undisturbed s \<dots>"
    by (rule undisturbed_sequence [OF _ assms])
       (auto simp add: undisturbed_updateHealth undisturbed_debugLog undisturbed_pollTrack
          undisturbed_pollVolume undisturbed_pollMuted undisturbed_pollState)
  finally show ?thesis .
next
  case False
  then have "pollGroupSettled grp h m results s =
      sequence
        [updateHealth h (\<lambda>r. r\<lparr>consecutiveFailures := consecutiveFailures r + 1\<rparr>),
         emit [Log LError ''[MMM-Sonos] Poll failed for ${group.Name} (${health.consecutiveFailures}/${maxFailures})''],
         \<lambda>s. if consecutiveFailures (healthStore s h) \<ge> m
              then triggerRediscovery s else s] s"
    by (simp add: pollGroupSettled_def)
  also have "undisturbed s \<dots>"
    by (rule undisturbed_sequence [OF _ assms])
       (auto simp add: undisturbed_updateHealth undisturbed_emit undisturbed_triggerRediscovery
          undisturbed_refl)
  finally show ?thesis .
qed

lemma undisturbed_renewDeviceSubscriptions:
  assumes "isRediscovering s"
  shows "undisturbed s (renewDeviceSubscriptions dev grp s)"
proof -
  let ?s1 = "debugLog ''[${group.Name}] Device ${device.host}, _isSubscribed: ${device._isSubscribed}'' s"
  have u1: "undisturbed s ?s1" by (rule undisturbed_debugLog)
  then have r1: "isRediscovering ?s1" using undisturbed_fields(1) assms by simp
  have "undisturbed ?s1 (renewDeviceSubscriptions dev grp s)"
    unfolding renewDeviceSubscriptions_def Let_def
    by (auto intro!: undisturbed_then [where f = "debugLog _"] undisturbed_debugLog
        undisturbed_triggerRediscovery undisturbed_emit r1)
  with u1 show ?thesis by (rule undisturbed_trans)
qed

lemma undisturbed_checkGroupSubscription:
  assumes "isRediscovering s"
  shows "undisturbed s (checkGroupSubscription grp s)"
  unfolding checkGroupSubscription_def
  by (auto split: option.splits
      intro!: undisturbed_then [where f = "debugLog _"] undisturbed_debugLog
        undisturbed_triggerRediscovery undisturbed_renewDeviceSubscriptions assms)

lemma undisturbed_subscriptionCheck:
  assumes "isRediscovering s"
  shows "undisturbed s (subscriptionCheck s)"
proof -
  let ?s1 = "debugLog ''Subscription health check triggered'' s"
  have u1: "undisturbed s ?s1" by (rule undisturbed_debugLog)
  then have r1: "isRediscovering ?s1" using undisturbed_fields(1) assms by simp
  have d: "undisturbed t (debugLog m t)" for m t by (rule undisturbed_debugLog)
  have dd: "undisturbed t (debugLog m (debugLog m' t))" for m m' t
    by (blast intro: undisturbed_trans undisturbed_debugLog)
  have "undisturbed ?s1 (subscriptionCheck s)"
    unfolding subscriptionCheck_def Let_def
  proof (auto intro!: d)
    assume "groups ?s1 \<noteq> []"
    have r2: "isRediscovering (debugLog m (debugLog m' ?s1))" for m m'
      using undisturbed_fields(1) [OF dd [of ?s1 m m']] r1 by simp
    show "undisturbed ?s1 (fold checkGroupSubscription (groups ?s1)
        (debugLog ''Listener has ${listener._deviceSubscriptions?.length || 0} total subscriptions''
          (debugLog ''Running subscription health check for ${this.groups.length} groups'' ?s1)))"
      by (rule undisturbed_trans [OF dd])
         (rule undisturbed_fold [OF undisturbed_checkGroupSubscription r2])
  qed
  with u1 show ?thesis by (rule undisturbed_trans)
qed

lemma undisturbed_escalate:
  "isRediscovering s \<Longrightarrow> undisturbed s (escalate e s)"
  by (cases e)
     (simp_all add: undisturbed_handleListenerError undisturbed_pollGroupSettled
        undisturbed_subscriptionCheck undisturbed_renewalSettled undisturbed_triggerRediscovery)

lemma undisturbed_escalations:
  "isRediscovering s \<Longrightarrow> undisturbed s (fold escalate es s)"
  by (rule undisturbed_fold [OF undisturbed_escalate])


subsection \<open>The teardown as one update\<close>

lemma debugLog_update: "debugLog m s = s\<lparr>trace := trace s @ debugLine (debug s) m\<rparr>"
  by (simp add: debugLog_def emit_def debugLine_def)

lemma clearSubscriptionCheckTimer_update:
  "clearSubscriptionCheckTimer s =
     s\<lparr>subscriptionCheckTimer := None,
       trace := trace s @
         (case subscriptionCheckTimer s of None \<Rightarrow> [] | Some t \<Rightarrow> [ClearInterval t])\<rparr>"
  by (simp add: clearSubscriptionCheckTimer_def emit_def split: option.splits)

lemma clearPollTimeout_update:
  "clearPollTimeout s =
     s\<lparr>pollTimeout := None,
       trace := trace s @ (case pollTimeout s of None \<Rightarrow> [] | Some t \<Rightarrow> [ClearTimeout t])\<rparr>"
  by (simp add: clearPollTimeout_def emit_def split: option.splits)

lemma stopListenerIfListening_update:
  "stopListenerIfListening s =
     s\<lparr>trace := trace s @ (if isListening s then [StopListener] else [])\<rparr>"
  by (simp add: stopListenerIfListening_def emit_def)

lemma clearDeviceSubscriptions_update:
  "clearDeviceSubscriptions s =
     s\<lparr>deviceSubscriptions := map_option (\<lambda>_. []) (deviceSubscriptions s)\<rparr>"
  by (simp add: clearDeviceSubscriptions_def split: option.splits)

lemma triggerRediscovery_teardown:
  assumes "\<not> isRediscovering s"
  shows "triggerRediscovery s =
     s\<lparr>isRediscovering := True, subscriptionCheckTimer := None, pollTimeout := None,
       subscribedDevices := [], groupHealth := [], groups := [],
       deviceSubscriptions := map_option (\<lambda>_. []) (deviceSubscriptions s),
       asyncDevice := None, nextTimer := Suc (nextTimer s),
       trace := trace s @
         [Log LWarn ''[MMM-Sonos] Triggering full rediscovery...''] @
         debugLine (debug s) ''Clearing subscription health check timer'' @
         (case subscriptionCheckTimer s of None \<Rightarrow> [] | Some t \<Rightarrow> [ClearInterval t]) @
         debugLine (debug s) ''Clearing poll timeout (was: ${this.pollTimeout})'' @
         (case pollTimeout s of None \<Rightarrow> [] | Some t \<Rightarrow> [ClearTimeout t]) @
         debugLine (debug s) ''Cleaning up existing state...'' @
         concat (map removeDeviceListeners (subscribedDevices s)) @
         (if isListening s then [StopListener] else []) @
         [SetTimeout (nextTimer s) RestartDiscovery 2000]\<rparr>"
  using assms
  by (simp add: triggerRediscovery_def sequence_def debugLog_update
      clearSubscriptionCheckTimer_update clearPollTimeout_update stopListenerIfListening_update
      clearDeviceSubscriptions_update cleanUpSubscribedDevices_def setTimeout_def emit_def
      debugLine_def)

lemma triggerRediscovery_marks: "isRediscovering (triggerRediscovery s)"
  by (cases "isRediscovering s")
     (simp_all add: triggerRediscovery_teardown triggerRediscovery_guard debugLog_update)

subsection \<open>A settled group poll as one update\<close>

lemma pollTrack_update:
  "pollTrack grp h r s =
     s\<lparr>healthStore := (healthStore s)
          (h := (healthStore s h)\<lparr>lastTrack := trackAfter (lastTrack (healthStore s h)) r\<rparr>),
       trace := trace s @ trackDebug (debug s) r @ trackEvents grp (lastTrack (healthStore s h)) r\<rparr>"
  by (simp add: pollTrack_def trackAfter_def trackEvents_def trackDebug_def sequence_def
      debugLog_update updateHealth_def emit_def Let_def split: settled.splits option.splits)

lemma pollVolume_update:
  "pollVolume grp h r s =
     s\<lparr>healthStore := (healthStore s)
          (h := (healthStore s h)\<lparr>lastVolume := valueAfter (lastVolume (healthStore s h)) r\<rparr>),
       trace := trace s @ valueEvents (SET_SONOS_VOLUME grp) (lastVolume (healthStore s h)) r\<rparr>"
  by (simp add: pollVolume_def valueAfter_def valueEvents_def updateHealth_def emit_def
      split: settled.splits)

lemma pollMuted_update:
  "pollMuted grp h r s =
     s\<lparr>healthStore := (healthStore s)
          (h := (healthStore s h)\<lparr>lastMuted := valueAfter (lastMuted (healthStore s h)) r\<rparr>),
       trace := trace s @ valueEvents (SET_SONOS_MUTE grp) (lastMuted (healthStore s h)) r\<rparr>"
  by (simp add: pollMuted_def valueAfter_def valueEvents_def updateHealth_def emit_def
      split: settled.splits)

lemma pollState_update:
  "pollState grp h r s =
     s\<lparr>healthStore := (healthStore s)
          (h := (healthStore s h)\<lparr>playState := valueAfter (playState (healthStore s h)) r\<rparr>),
       trace := trace s @ valueEvents (SET_SONOS_PLAY_STATE grp) (playState (healthStore s h)) r\<rparr>"
  by (simp add: pollState_def valueAfter_def valueEvents_def updateHealth_def emit_def
      split: settled.splits)

lemma pollGroupSettled_success:
  assumes "anySucceeded results"
  shows "pollGroupSettled grp h m results s =
     s\<lparr>healthStore := (healthStore s)
          (h := (healthStore s h)
             \<lparr>consecutiveFailures := 0,
              lastTrack := trackAfter (lastTrack (healthStore s h)) (trackResult results),
              lastVolume := valueAfter (lastVolume (healthStore s h)) (volumeResult results),
              lastMuted := valueAfter (lastMuted (healthStore s h)) (mutedResult results),
              playState := valueAfter (playState (healthStore s h)) (stateResult results)\<rparr>),
       trace := trace s @
         debugLine (debug s) ''[${group.Name}] Poll API results: track=${results[0].status}, vol=${results[1].status}, mute=${results[2].status}, state=${results[3].status}'' @
         trackDebug (debug s) (trackResult results) @
         trackEvents grp (lastTrack (healthStore s h)) (trackResult results) @
         valueEvents (SET_SONOS_VOLUME grp) (lastVolume (healthStore s h)) (volumeResult results) @
         valueEvents (SET_SONOS_MUTE grp) (lastMuted (healthStore s h)) (mutedResult results) @
         valueEvents (SET_SONOS_PLAY_STATE grp) (playState (healthStore s h)) (stateResult results)\<rparr>"
  using assms
  by (simp add: pollGroupSettled_def sequence_def pollTrack_update pollVolume_update
      pollMuted_update pollState_update debugLog_update updateHealth_def trackDebug_def debugLine_def)

lemma pollGroupSettled_failure:
  assumes "\<not> anySucceeded results"
  shows "pollGroupSettled grp h m results s =
     (let s1 = s\<lparr>healthStore := (healthStore s)
                   (h := (healthStore s h)
                      \<lparr>consecutiveFailures := consecutiveFailures (healthStore s h) + 1\<rparr>),
                 trace := trace s @ [Log LError ''[MMM-Sonos] Poll failed for ${group.Name} (${health.consecutiveFailures}/${maxFailures})'']\<rparr>
      in if consecutiveFailures (healthStore s h) + 1 \<ge> m then triggerRediscovery s1 else s1)"
  using assms
  by (simp add: pollGroupSettled_def sequence_def updateHealth_def emit_def Let_def)


lemma pollGroupContinuation_captures:
  "pollGroupContinuation grp s0 = Some k \<longleftrightarrow>
     (\<exists>h. map_of (groupHealth s0) (ID grp) = Some h \<and>
          k = pollGroupSettled grp h (maxFailuresOf s0))"
  by (auto simp add: pollGroupContinuation_def split: option.splits)

lemma filter_debugLine [simp]:
  "filter isTrackEvent (debugLine b m) = []" "filter isVolumeEvent (debugLine b m) = []"
  "filter isMuteEvent (debugLine b m) = []" "filter isStateEvent (debugLine b m) = []"
  "filter isNotification (debugLine b m) = []"
  by (simp_all add: debugLine_def)

lemma filter_trackDebug [simp]:
  "filter isTrackEvent (trackDebug b r) = []" "filter isVolumeEvent (trackDebug b r) = []"
  "filter isMuteEvent (trackDebug b r) = []" "filter isStateEvent (trackDebug b r) = []"
  by (simp_all add: trackDebug_def split: settled.splits option.splits)

lemma filter_trackEvents [simp]:
  "filter isTrackEvent (trackEvents grp st r) = trackEvents grp st r"
  "filter isVolumeEvent (trackEvents grp st r) = []"
  "filter isMuteEvent (trackEvents grp st r) = []"
  "filter isStateEvent (trackEvents grp st r) = []"
  by (simp_all add: trackEvents_def split: settled.splits option.splits)

lemma filter_volumeEvents [simp]:
  "filter isTrackEvent (valueEvents (SET_SONOS_VOLUME grp) st r) = []"
  "filter isVolumeEvent (valueEvents (SET_SONOS_VOLUME grp) st r) = valueEvents (SET_SONOS_VOLUME grp) st r"
  "filter isMuteEvent (valueEvents (SET_SONOS_VOLUME grp) st r) = []"
  "filter isStateEvent (valueEvents (SET_SONOS_VOLUME grp) st r) = []"
  by (simp_all add: valueEvents_def split: settled.splits)

lemma filter_muteEvents [simp]:
  "filter isTrackEvent (valueEvents (SET_SONOS_MUTE grp) st r) = []"
  "filter isVolumeEvent (valueEvents (SET_SONOS_MUTE grp) st r) = []"
  "filter isMuteEvent (valueEvents (SET_SONOS_MUTE grp) st r) = valueEvents (SET_SONOS_MUTE grp) st r"
  "filter isStateEvent (valueEvents (SET_SONOS_MUTE grp) st r) = []"
  by (simp_all add: valueEvents_def split: settled.splits)

lemma filter_stateEvents [simp]:
  "filter isTrackEvent (valueEvents (SET_SONOS_PLAY_STATE grp) st r) = []"
  "filter isVolumeEvent (valueEvents (SET_SONOS_PLAY_STATE grp) st r) = []"
  "filter isMuteEvent (valueEvents (SET_SONOS_PLAY_STATE grp) st r) = []"
  "filter isStateEvent (valueEvents (SET_SONOS_PLAY_STATE grp) st r) = valueEvents (SET_SONOS_PLAY_STATE grp) st r"
  by (simp_all add: valueEvents_def split: settled.splits)

lemma quiet_events [simp]:
  "list_all (\<lambda>e. \<not> teardownEffect e) (debugLine b m)"
  "list_all (\<lambda>e. \<not> teardownEffect e) (trackDebug b rt)"
  "list_all (\<lambda>e. \<not> teardownEffect e) (trackEvents grp st rt)"
  "list_all (\<lambda>e. \<not> teardownEffect e) (valueEvents mk sv rv)"
  by (simp_all add: debugLine_def trackDebug_def trackEvents_def valueEvents_def
      split: settled.splits option.splits)

lemma newEffects_update [simp]:
  "newEffects s (s\<lparr>healthStore := hs, trace := trace s @ es\<rparr>) = es"
  by (simp add: newEffects_def)

lemma filter_removeDeviceListeners [simp]:
  "filter isNotification (concat (map removeDeviceListeners ds)) = []"
  by (induction ds) (simp_all add: removeDeviceListeners_def)

lemma triggerRediscovery_healthStore [simp]:
  "healthStore (triggerRediscovery s) = healthStore s"
  by (cases "isRediscovering s")
     (simp_all add: triggerRediscovery_teardown triggerRediscovery_guard debugLog_update)

lemma triggerRediscovery_trace:
  "trace (triggerRediscovery s) = trace s @ newEffects s (triggerRediscovery s) \<and>
   filter isNotification (newEffects s (triggerRediscovery s)) = []"
  by (cases "isRediscovering s")
     (simp_all add: triggerRediscovery_teardown triggerRediscovery_guard debugLog_update
        newEffects_def split: option.splits)

lemma trackChanged_tuple:
  "trackChanged stored t =
     (case stored of None \<Rightarrow> True | Some l \<Rightarrow> \<not> sameTrackTuple l t)"
  by (auto simp add: trackChanged_def sameTrackTuple_def split: option.splits)

subsection \<open>The poll scheduler\<close>

lemma objectValues_ran: "set (objectValues obj) = ran (map_of obj)"
proof -
  have "ran (map_of (AList.clearjunk obj)) = snd ` set (AList.clearjunk obj)"
    by (rule ran_distinct) (rule distinct_clearjunk)
  then show ?thesis
    by (simp add: objectValues_def map_of_clearjunk)
qed

lemma isAnyGroupPlaying_iff:
  "isAnyGroupPlaying s =
     (\<exists>g h. map_of (groupHealth s) g = Some h \<and> playState (healthStore s h) = JStr ''playing'')"
  by (auto simp add: isAnyGroupPlaying_def list_ex_iff objectValues_ran ran_def)

lemma getPollingInterval_trace [simp]:
  "getPollingInterval (s\<lparr>trace := es\<rparr>) = getPollingInterval s"
  by (simp add: getPollingInterval_def isAnyGroupPlaying_def configNumber_def)

lemma schedulePoll_update:
  "schedulePoll s =
     s\<lparr>pollTimeout := Some (nextTimer s), nextTimer := Suc (nextTimer s),
       trace := trace s @
         (case pollTimeout s of None \<Rightarrow> [] | Some t \<Rightarrow> [ClearTimeout t]) @
         debugLine (debug s) ''Scheduling poll in ${interval}ms'' @
         [SetTimeout (nextTimer s) PollCycle (getPollingInterval s)]\<rparr>"
  by (simp add: schedulePoll_def sequence_def debugLog_update setTimeout_def emit_def Let_def
      split: option.splits)

lemma armsPollTimer_debugLine [simp]: "list_ex armsPollTimer (debugLine b m) = False"
  by (simp add: debugLine_def)

subsection \<open>Device calls of the recovery and of a renewal\<close>

lemma filter_calls_removeDeviceListeners [simp]:
  "filter isDeviceCall (concat (map removeDeviceListeners ds)) = []"
  by (induction ds) (simp_all add: removeDeviceListeners_def)

lemma filter_calls_debugLine [simp]: "filter isDeviceCall (debugLine b m) = []"
  by (simp add: debugLine_def)

lemma triggerRediscovery_calls:
  "trace (triggerRediscovery s) = trace s @ newEffects s (triggerRediscovery s) \<and>
   filter isDeviceCall (newEffects s (triggerRediscovery s)) = []"
  by (cases "isRediscovering s")
     (simp_all add: triggerRediscovery_teardown triggerRediscovery_guard debugLog_update
        newEffects_def split: option.splits)

lemma debugLog_then_trigger:
  "filter isDeviceCall (newEffects s (triggerRediscovery (debugLog m s))) = []"
proof -
  let ?s1 = "debugLog m s"
  have "trace (triggerRediscovery ?s1) =
      trace s @ debugLine (debug s) m @ newEffects ?s1 (triggerRediscovery ?s1)"
    using triggerRediscovery_calls [of ?s1] by (simp add: debugLog_update)
  then have "newEffects s (triggerRediscovery ?s1) =
      debugLine (debug s) m @ newEffects ?s1 (triggerRediscovery ?s1)"
    by (rule newEffects_append)
  then show ?thesis
    using triggerRediscovery_calls [of ?s1] by simp
qed

lemma renewDeviceSubscriptions_cases:
  "renewDeviceSubscriptions dev grp s =
     (if (case deviceSubscriptions s of None \<Rightarrow> False | Some subs \<Rightarrow> dev \<in> set subs)
      then s\<lparr>trace := trace s @
             debugLine (debug s) ''[${group.Name}] Device ${device.host}, _isSubscribed: ${device._isSubscribed}'' @
             debugLine (debug s) ''[${group.Name}] Attempting subscription renewal...'' @
             [RenewAllSubscriptions dev (orDefault (apiCall (currentTimeouts s)) 5000)]\<rparr>
      else triggerRediscovery
             (debugLog ''[${group.Name}] No DeviceSubscription found, triggering rediscovery''
               (debugLog ''[${group.Name}] Device ${device.host}, _isSubscribed: ${device._isSubscribed}'' s)))"
  by (simp add: renewDeviceSubscriptions_def Let_def debugLog_update emit_def currentTimeouts_def)


lemma isAnyGroupPlaying_trace [simp]:
  "isAnyGroupPlaying (s\<lparr>trace := es\<rparr>) = isAnyGroupPlaying s"
  by (simp add: isAnyGroupPlaying_def)

subsection \<open>Notifications of push handlers and polls\<close>

lemma syncHealth_update:
  "map_of (groupHealth s) (ID grp) = Some h \<Longrightarrow>
   syncHealth grp f s = s\<lparr>healthStore := (healthStore s)(h := f (healthStore s h))\<rparr>"
  by (simp add: syncHealth_def updateHealth_def)

lemma poll_track_events:
  assumes "trackResult results = Fulfilled (Some t')"
  shows "filter isTrackEvent (newEffects s (pollGroupSettled grp h m results s)) =
     (if trackChanged (lastTrack (healthStore s h)) t'
      then [SendSocketNotification (SET_SONOS_CURRENT_TRACK grp t')] else [])"
proof -
  have "anySucceeded results" using assms by (simp add: anySucceeded_def)
  then have "filter isTrackEvent (newEffects s (pollGroupSettled grp h m results s)) =
      trackEvents grp (lastTrack (healthStore s h)) (trackResult results)"
    by (simp add: pollGroupSettled_success)
  then show ?thesis
    by (simp add: assms trackEvents_def)
qed

lemma poll_volume_events:
  assumes "volumeResult results = Fulfilled v"
  shows "filter isVolumeEvent (newEffects s (pollGroupSettled grp h m results s)) =
     (if lastVolume (healthStore s h) \<noteq> v
      then [SendSocketNotification (SET_SONOS_VOLUME grp v)] else [])"
proof -
  have "anySucceeded results" using assms by (simp add: anySucceeded_def)
  then have "filter isVolumeEvent (newEffects s (pollGroupSettled grp h m results s)) =
      valueEvents (SET_SONOS_VOLUME grp) (lastVolume (healthStore s h)) (volumeResult results)"
    by (simp add: pollGroupSettled_success)
  then show ?thesis
    by (simp add: assms valueEvents_def)
qed

lemma poll_mute_events:
  assumes "mutedResult results = Fulfilled v"
  shows "filter isMuteEvent (newEffects s (pollGroupSettled grp h m results s)) =
     (if lastMuted (healthStore s h) \<noteq> v
      then [SendSocketNotification (SET_SONOS_MUTE grp v)] else [])"
proof -
  have "anySucceeded results" using assms by (simp add: anySucceeded_def)
  then have "filter isMuteEvent (newEffects s (pollGroupSettled grp h m results s)) =
      valueEvents (SET_SONOS_MUTE grp) (lastMuted (healthStore s h)) (mutedResult results)"
    by (simp add: pollGroupSettled_success)
  then show ?thesis
    by (simp add: assms valueEvents_def)
qed

lemma poll_state_events:
  assumes "stateResult results = Fulfilled v"
  shows "filter isStateEvent (newEffects s (pollGroupSettled grp h m results s)) =
     (if playState (healthStore s h) \<noteq> v
      then [SendSocketNotification (SET_SONOS_PLAY_STATE grp v)] else [])"
proof -
  have "anySucceeded results" using assms by (simp add: anySucceeded_def)
  then have "filter isStateEvent (newEffects s (pollGroupSettled grp h m results s)) =
      valueEvents (SET_SONOS_PLAY_STATE grp) (playState (healthStore s h)) (stateResult results)"
    by (simp add: pollGroupSettled_success)
  then show ?thesis
    by (simp add: assms valueEvents_def)
qed

subsection \<open>Parsing a number that was printed\<close>

lemma digitChar_props:
  assumes "d < 10"
  shows "isDigit (digitChar d)" and "digitValue (digitChar d) = int d"
    and "\<not> isStrWhiteSpaceChar (digitChar d)"
    and "digitChar d \<noteq> CHR ''-''" and "digitChar d \<noteq> CHR ''+''"
proof -
  have v: "(of_char (digitChar d) :: nat) = 48 + d"
    using assms by (simp add: digitChar_def)
  show "isDigit (digitChar d)" using assms by (simp add: isDigit_def v)
  show "digitValue (digitChar d) = int d" by (simp add: digitValue_def v)
  show "\<not> isStrWhiteSpaceChar (digitChar d)" using assms by (simp add: isStrWhiteSpaceChar_def v)
  have "(of_char (digitChar d) :: nat) \<noteq> of_char CHR ''-''" by (simp add: v)
  then show "digitChar d \<noteq> CHR ''-''" by auto
  have "(of_char (digitChar d) :: nat) \<noteq> of_char CHR ''+''" by (simp add: v)
  then show "digitChar d \<noteq> CHR ''+''" by auto
qed

lemma natToString_digits: "list_all isDigit (natToString n)"
proof (induction n rule: natToString.induct)
  case (1 n)
  show ?case
  proof (cases "n < 10")
    case True
    then show ?thesis by (subst natToString.simps) (simp add: digitChar_props)
  next
    case False
    then show ?thesis
      using "1.IH" by (subst natToString.simps) (simp add: digitChar_props)
  qed
qed

lemma natToString_value:
  "foldl (\<lambda>a c. 10 * a + digitValue c) 0 (natToString n) = int n"
proof (induction n rule: natToString.induct)
  case (1 n)
  show ?case
  proof (cases "n < 10")
    case True
    then show ?thesis by (subst natToString.simps) (simp add: digitChar_props)
  next
    case False
    have "int n = 10 * int (n div 10) + int (n mod 10)"
      by presburger
    then show ?thesis
      using False "1.IH" by (subst natToString.simps) (simp add: digitChar_props)
  qed
qed

lemma natToString_head:
  "natToString n \<noteq> [] \<and> isDigit (hd (natToString n))"
proof (induction n rule: natToString.induct)
  case (1 n)
  show ?case
  proof (cases "n < 10")
    case True
    then show ?thesis by (subst (1 2) natToString.simps) (simp add: digitChar_props)
  next
    case False
    then show ?thesis
      using "1.IH" by (subst (1 2) natToString.simps) simp
  qed
qed

lemma isDigit_not_special:
  assumes "isDigit c"
  shows "\<not> isStrWhiteSpaceChar c" "c \<noteq> CHR ''-''" "c \<noteq> CHR ''+''"
  using assms by (auto simp add: isDigit_def isStrWhiteSpaceChar_def)

lemma takeWhile_all: "list_all P xs \<Longrightarrow> takeWhile P xs = xs"
  by (induction xs) simp_all

lemma parseInt_digits:
  assumes "list_all isDigit ds" and "ds \<noteq> []"
  shows "parseInt (JStr ds) = Some (foldl (\<lambda>a c. 10 * a + digitValue c) 0 ds)"
    and "parseInt (JStr (CHR ''-'' # ds)) = Some (- foldl (\<lambda>a c. 10 * a + digitValue c) 0 ds)"
proof -
  obtain c cs where ds: "ds = c # cs" using assms(2) by (cases ds) auto
  then have c: "isDigit c" using assms(1) by simp
  note sp = isDigit_not_special [OF c]
  have tw: "takeWhile isDigit ds = ds" using assms(1) by (rule takeWhile_all)
  show "parseInt (JStr ds) = Some (foldl (\<lambda>a c. 10 * a + digitValue c) 0 ds)"
    using tw sp by (simp add: parseInt_def ds Let_def)
  have m: "\<not> isStrWhiteSpaceChar CHR ''-''" by (simp add: isStrWhiteSpaceChar_def)
  show "parseInt (JStr (CHR ''-'' # ds)) = Some (- foldl (\<lambda>a c. 10 * a + digitValue c) 0 ds)"
    using tw m by (simp add: parseInt_def Let_def ds)
qed

lemma parseInt_number:
  assumes "\<bar>n\<bar> < 10 ^ 21"
  shows "parseInt (JNum n) = Some n"
proof -
  have j: "parseInt (JNum n) = parseInt (JStr (jsToString (JNum n)))"
    by (simp add: parseInt_def)
  have ne: "natToString k \<noteq> []" for k using natToString_head by simp
  show ?thesis
  proof (cases "n < 0")
    case True
    then have "jsToString (JNum n) = CHR ''-'' # natToString (nat (- n))"
      using assms by (simp add: numberToString_def)
    with True show ?thesis
      unfolding j
      by (simp add: parseInt_digits(2) [OF natToString_digits ne] natToString_value)
  next
    case False
    then have "jsToString (JNum n) = natToString (nat n)"
      using assms by (simp add: numberToString_def)
    with False show ?thesis
      unfolding j
      by (simp add: parseInt_digits(1) [OF natToString_digits ne] natToString_value)
  qed
qed

text \<open>The digits as characters, for printing a given number.\<close>

lemma digitChar_values:
  "digitChar 0 = CHR ''0''" "digitChar 1 = CHR ''1''" "digitChar (Suc 0) = CHR ''1''"
  "digitChar 2 = CHR ''2''" "digitChar 3 = CHR ''3''" "digitChar 4 = CHR ''4''"
  "digitChar 5 = CHR ''5''" "digitChar 6 = CHR ''6''" "digitChar 7 = CHR ''7''"
  "digitChar 8 = CHR ''8''" "digitChar 9 = CHR ''9''"
  by code_simp+

lemma numberToString_1e21: "numberToString 1000000000000000000000 = ''1e+21''"
  by (simp add: numberToString_def stripTrailingZeros_def natToString.simps digitChar_values)

lemma parseInt_1e21: "parseInt (JNum 1000000000000000000000) = Some 1"
  by (simp add: parseInt_def numberToString_1e21 isStrWhiteSpaceChar_def isDigit_def
      digitValue_def)

subsection \<open>Starting the subscription health check and the poll chain\<close>

lemma startSubscriptionHealthCheck_effects:
  "trace (startSubscriptionHealthCheck s) =
     trace s @ newEffects s (startSubscriptionHealthCheck s) \<and>
   \<not> list_ex armsPollTimer (newEffects s (startSubscriptionHealthCheck s))"
  by (simp add: startSubscriptionHealthCheck_def sequence_def debugLog_update setInterval_def
      emit_def newEffects_def split: option.splits)

lemma subscriptionsSettled_polling_off:
  assumes "configNumber pollingIntervalPlaying s = Some 0"
  shows "\<not> list_ex armsPollTimer (newEffects s (subscriptionsSettled s))"
proof -
  let ?s1 = "emit [Log LLog ''[MMM-Sonos] Hybrid mode: Events + health checks (polling disabled)''] s"
  have e: "subscriptionsSettled s = startSubscriptionHealthCheck ?s1"
    using assms by (simp add: subscriptionsSettled_def)
  have "trace (startSubscriptionHealthCheck ?s1) =
      trace s @ [Log LLog ''[MMM-Sonos] Hybrid mode: Events + health checks (polling disabled)''] @
        newEffects ?s1 (startSubscriptionHealthCheck ?s1)"
    using startSubscriptionHealthCheck_effects [of ?s1] by (simp add: emit_def)
  then have "newEffects s (startSubscriptionHealthCheck ?s1) =
      [Log LLog ''[MMM-Sonos] Hybrid mode: Events + health checks (polling disabled)''] @
        newEffects ?s1 (startSubscriptionHealthCheck ?s1)"
    by (rule newEffects_append)
  then show ?thesis
    using startSubscriptionHealthCheck_effects [of ?s1] by (simp add: e)
qed

subsection \<open>Commands for a group that is not stored\<close>

lemma unknown_group_logged:
  assumes "groupId \<notin> fst ` set (groupsById s)" and "groupId \<notin> set objectPrototypeNames"
  shows "handleTogglePlayPause groupId s =
       Inr (emit [Log LError ''[MMM-Sonos] Group not found for ID: ${groupId}''] s)"
    and "handleNext groupId s =
       Inr (emit [Log LError ''[MMM-Sonos] Group not found for ID: ${groupId}''] s)"
    and "handleSetVolume groupId volume s =
       Inr (emit [Log LError ''[MMM-Sonos] Group not found for ID: ${groupId}''] s)"
proof -
  have "map_of (groupsById s) groupId = None"
    using assms(1) by (simp add: map_of_eq_None_iff)
  then have u: "getProperty (groupsById s) groupId = Undefined"
    using assms(2) by (simp add: getProperty_def)
  show "handleTogglePlayPause groupId s =
       Inr (emit [Log LError ''[MMM-Sonos] Group not found for ID: ${groupId}''] s)"
    by (simp add: handleTogglePlayPause_def u)
  show "handleNext groupId s =
       Inr (emit [Log LError ''[MMM-Sonos] Group not found for ID: ${groupId}''] s)"
    by (simp add: handleNext_def u)
  show "handleSetVolume groupId volume s =
       Inr (emit [Log LError ''[MMM-Sonos] Group not found for ID: ${groupId}''] s)"
    by (simp add: handleSetVolume_def u)
qed

subsection \<open>The poll marker stays null until polling is started again\<close>








lemma pollTimeout_initGroupHealth [simp]:
  "pollTimeout (fold initGroupHealth gs s) = pollTimeout s"
  by (induction gs arbitrary: s) (simp_all add: initGroupHealth_def)

lemma pollTimeout_subscribeGroup [simp]:
  "pollTimeout (fold subscribeGroup gs s) = pollTimeout s"
  by (induction gs arbitrary: s) (simp_all add: subscribeGroup_def emit_def)



lemma pollTimeout_syncHealth [simp]: "pollTimeout (syncHealth grp f s) = pollTimeout s"
  by (simp add: syncHealth_def updateHealth_def split: option.splits)





section \<open>The recovery transition is guarded\<close>

text \<open>
  Claim C1. While a rediscovery is in progress (\<open>isRediscovering\<close> is set), a call of
  \<open>triggerRediscovery\<close> returns at once: it writes at most its debug line. Whatever
  callbacks that can reach \<open>triggerRediscovery\<close> run in that time (listener errors,
  settled group polls, firings of the subscription health check, settled renewals,
  direct calls), in any number and order, the helper stays undisturbed: no field other
  than the contents of health objects changes, so the marker stays set, and no timer is
  cleared or armed, no listener removed, the listener not stopped, discovery not started.
  The marker is cleared by the restart callback that the teardown armed. A call that
  finds the marker clear sets it and arms that restart as its last action.
\<close>

theorem recovery_transition_guarded:
  assumes "isRediscovering s"
  shows "triggerRediscovery s = debugLog ''Rediscovery already in progress, skipping'' s \<and>
         undisturbed s (fold escalate es s) \<and>
         isRediscovering (fold escalate es s) \<and>
         \<not> isRediscovering (restartDiscovery (fold escalate es s)) \<and>
         (\<not> isRediscovering t \<longrightarrow>
            isRediscovering (triggerRediscovery t) \<and>
            last (trace (triggerRediscovery t)) = SetTimeout (nextTimer t) RestartDiscovery 2000)"
proof -
  have u: "undisturbed s (fold escalate es s)"
    using assms by (rule undisturbed_escalations)
  then have "isRediscovering (fold escalate es s)"
    using undisturbed_fields(1) assms by simp
  moreover have "\<not> isRediscovering (restartDiscovery t)" for t
    by (simp add: restartDiscovery_def emit_def)
  moreover have "last (trace (triggerRediscovery t)) = SetTimeout (nextTimer t) RestartDiscovery 2000"
    if "\<not> isRediscovering t"
    using that by (simp add: triggerRediscovery_teardown)
  ultimately show ?thesis
    using u triggerRediscovery_guard [OF assms] triggerRediscovery_marks by simp
qed

theorem recovery_transition_guarded_witness:
  "isRediscovering (triggerRediscovery stableState) \<and>
   \<not> isRediscovering stableState \<and>
   undisturbed (triggerRediscovery stableState)
     (fold escalate
        [FromListenerError, FromPollGroup kitchen 0 3 allFailed, FromSubscriptionCheck,
         FromRenewal (withTimeout Pending ''Subscription renewal timed out''), DirectCall]
        (triggerRediscovery stableState)) \<and>
   last (trace (triggerRediscovery stableState)) = SetTimeout 2 RestartDiscovery 2000"
proof -
  have h: "isRediscovering (triggerRediscovery stableState)"
    by (simp add: triggerRediscovery_teardown stableState_def)
  have n: "\<not> isRediscovering stableState" "nextTimer stableState = 2"
    by (simp_all add: stableState_def)
  from recovery_transition_guarded [OF h, where t = stableState] show ?thesis
    using h n by metis
qed

section \<open>A poll in which some fetches succeed\<close>

text \<open>
  Claim C2. When the four fetches of one group's poll have settled and at least one
  of them succeeded (in particular when one, two or three did), the continuation sets
  the group's \<open>consecutiveFailures\<close> to 0. For each field whose fetch was rejected
  (failed or timed out) the stored value is the one before and no notification of that
  field is sent. For each field whose fetch succeeded the value is compared with the
  stored one; if it differs it is stored and exactly one notification of that field is
  sent, otherwise nothing is sent. (A track fetch that succeeds with a falsy value is
  not compared.) The device handle, the other health objects and every other field of
  the helper stay as they are, and no recovery is started.
\<close>

theorem partial_poll_updates_succeeded_fields:
  assumes "anySucceeded results"
  shows
    "let s' = pollGroupSettled grp h m results s; r = healthStore s h; r' = healthStore s' h
     in consecutiveFailures r' = 0 \<and>
        (case trackResult results of
           Fulfilled (Some t) \<Rightarrow>
             lastTrack r' = (if trackChanged (lastTrack r) t then Some t else lastTrack r) \<and>
             filter isTrackEvent (newEffects s s') =
               (if trackChanged (lastTrack r) t
                then [SendSocketNotification (SET_SONOS_CURRENT_TRACK grp t)] else [])
         | _ \<Rightarrow> lastTrack r' = lastTrack r \<and> filter isTrackEvent (newEffects s s') = []) \<and>
        (case volumeResult results of
           Fulfilled v \<Rightarrow>
             lastVolume r' = v \<and>
             filter isVolumeEvent (newEffects s s') =
               (if lastVolume r \<noteq> v then [SendSocketNotification (SET_SONOS_VOLUME grp v)] else [])
         | Rejected e \<Rightarrow>
             lastVolume r' = lastVolume r \<and> filter isVolumeEvent (newEffects s s') = []) \<and>
        (case mutedResult results of
           Fulfilled v \<Rightarrow>
             lastMuted r' = v \<and>
             filter isMuteEvent (newEffects s s') =
               (if lastMuted r \<noteq> v then [SendSocketNotification (SET_SONOS_MUTE grp v)] else [])
         | Rejected e \<Rightarrow>
             lastMuted r' = lastMuted r \<and> filter isMuteEvent (newEffects s s') = []) \<and>
        (case stateResult results of
           Fulfilled v \<Rightarrow>
             playState r' = v \<and>
             filter isStateEvent (newEffects s s') =
               (if playState r \<noteq> v then [SendSocketNotification (SET_SONOS_PLAY_STATE grp v)] else [])
         | Rejected e \<Rightarrow>
             playState r' = playState r \<and> filter isStateEvent (newEffects s s') = []) \<and>
        device r' = device r \<and>
        (\<forall>h'. h' \<noteq> h \<longrightarrow> healthStore s' h' = healthStore s h') \<and>
        undisturbed s s'"
proof -
  note e = pollGroupSettled_success [OF assms, of grp h m s]
  have cf: "consecutiveFailures (healthStore (pollGroupSettled grp h m results s) h) = 0"
    by (simp add: e)
  have tr: "case trackResult results of
           Fulfilled (Some t) \<Rightarrow>
             lastTrack (healthStore (pollGroupSettled grp h m results s) h) =
               (if trackChanged (lastTrack (healthStore s h)) t then Some t
                else lastTrack (healthStore s h)) \<and>
             filter isTrackEvent (newEffects s (pollGroupSettled grp h m results s)) =
               (if trackChanged (lastTrack (healthStore s h)) t
                then [SendSocketNotification (SET_SONOS_CURRENT_TRACK grp t)] else [])
         | _ \<Rightarrow> lastTrack (healthStore (pollGroupSettled grp h m results s) h) =
               lastTrack (healthStore s h) \<and>
             filter isTrackEvent (newEffects s (pollGroupSettled grp h m results s)) = []"
    by (simp add: e trackAfter_def trackEvents_def split: settled.splits option.splits)
  have vo: "case volumeResult results of
           Fulfilled v \<Rightarrow>
             lastVolume (healthStore (pollGroupSettled grp h m results s) h) = v \<and>
             filter isVolumeEvent (newEffects s (pollGroupSettled grp h m results s)) =
               (if lastVolume (healthStore s h) \<noteq> v
                then [SendSocketNotification (SET_SONOS_VOLUME grp v)] else [])
         | Rejected e \<Rightarrow>
             lastVolume (healthStore (pollGroupSettled grp h m results s) h) =
               lastVolume (healthStore s h) \<and>
             filter isVolumeEvent (newEffects s (pollGroupSettled grp h m results s)) = []"
    by (simp add: e valueAfter_def valueEvents_def split: settled.splits)
  have mu: "case mutedResult results of
           Fulfilled v \<Rightarrow>
             lastMuted (healthStore (pollGroupSettled grp h m results s) h) = v \<and>
             filter isMuteEvent (newEffects s (pollGroupSettled grp h m results s)) =
               (if lastMuted (healthStore s h) \<noteq> v
                then [SendSocketNotification (SET_SONOS_MUTE grp v)] else [])
         | Rejected e \<Rightarrow>
             lastMuted (healthStore (pollGroupSettled grp h m results s) h) =
               lastMuted (healthStore s h) \<and>
             filter isMuteEvent (newEffects s (pollGroupSettled grp h m results s)) = []"
    by (simp add: e valueAfter_def valueEvents_def split: settled.splits)
  have st: "case stateResult results of
           Fulfilled v \<Rightarrow>
             playState (healthStore (pollGroupSettled grp h m results s) h) = v \<and>
             filter isStateEvent (newEffects s (pollGroupSettled grp h m results s)) =
               (if playState (healthStore s h) \<noteq> v
                then [SendSocketNotification (SET_SONOS_PLAY_STATE grp v)] else [])
         | Rejected e \<Rightarrow>
             playState (healthStore (pollGroupSettled grp h m results s) h) =
               playState (healthStore s h) \<and>
             filter isStateEvent (newEffects s (pollGroupSettled grp h m results s)) = []"
    by (simp add: e valueAfter_def valueEvents_def split: settled.splits)
  have dv: "device (healthStore (pollGroupSettled grp h m results s) h) = device (healthStore s h)"
    by (simp add: e)
  have ot: "\<forall>h'. h' \<noteq> h \<longrightarrow>
      healthStore (pollGroupSettled grp h m results s) h' = healthStore s h'"
    by (simp add: e)
  have un: "undisturbed s (pollGroupSettled grp h m results s)"
    by (simp add: e undisturbed_def)
  show ?thesis
    unfolding Let_def using cf tr vo mu st dv ot un by (intro conjI)
qed

theorem partial_poll_updates_succeeded_fields_witness:
  "anySucceeded partialResults \<and>
   consecutiveFailures (healthStore degradedState 0) = 2 \<and>
   (let s' = pollGroupSettled kitchen 0 3 partialResults degradedState
    in consecutiveFailures (healthStore s' 0) = 0 \<and>
       lastVolume (healthStore s' 0) = JNum 35 \<and>
       lastMuted (healthStore s' 0) = JBool False \<and>
       playState (healthStore s' 0) = JStr ''playing'' \<and>
       filter isVolumeEvent (newEffects degradedState s') =
         [SendSocketNotification (SET_SONOS_VOLUME kitchen (JNum 35))] \<and>
       filter isMuteEvent (newEffects degradedState s') = [] \<and>
       filter isStateEvent (newEffects degradedState s') = [])"
proof -
  have h: "anySucceeded partialResults"
    by (simp add: anySucceeded_def partialResults_def)
  from partial_poll_updates_succeeded_fields [OF h, of kitchen 0 3 degradedState] show ?thesis
    using h
    by (simp add: Let_def partialResults_def degradedState_def stableState_def updateHealth_def
        initialHealth_def)
qed

section \<open>A poll in which every fetch fails\<close>

text \<open>
  Claim C3. When all four fetches of one group's poll were rejected, the continuation
  adds exactly 1 to the group's \<open>consecutiveFailures\<close> and leaves \<open>lastTrack\<close>,
  \<open>lastVolume\<close>, \<open>lastMuted\<close>, \<open>playState\<close> and the device handle of that health
  object as they were; no notification is sent. With \<open>m\<close> the maximum that
  \<open>pollGroup\<close> read when the poll started (the configured
  \<open>maxConsecutiveFailures\<close>, or 3): below \<open>m\<close> the helper is undisturbed, so no
  recovery is started; from \<open>m\<close> on \<open>triggerRediscovery\<close> is called. A recovery
  that starts here starts only with the incremented counter at or above the configured
  maximum.
\<close>

theorem total_poll_failure_counts_once:
  assumes "\<not> anySucceeded results"
  shows
    "let m = maxFailuresOf s0;
         s' = pollGroupSettled grp h m results s;
         r = healthStore s h; r' = healthStore s' h
     in consecutiveFailures r' = consecutiveFailures r + 1 \<and>
        lastTrack r' = lastTrack r \<and> lastVolume r' = lastVolume r \<and>
        lastMuted r' = lastMuted r \<and> playState r' = playState r \<and>
        device r' = device r \<and>
        (\<forall>h'. h' \<noteq> h \<longrightarrow> healthStore s' h' = healthStore s h') \<and>
        filter isNotification (newEffects s s') = [] \<and>
        (consecutiveFailures r + 1 < m \<longrightarrow> undisturbed s s') \<and>
        (m \<le> consecutiveFailures r + 1 \<longrightarrow> isRediscovering s') \<and>
        (\<not> isRediscovering s \<and> isRediscovering s' \<longrightarrow>
           m \<le> consecutiveFailures r + 1 \<and>
           (\<forall>c. configNumber maxConsecutiveFailures s0 = Some c \<longrightarrow>
                c \<le> consecutiveFailures r + 1))"
proof -
  define m where "m = maxFailuresOf s0"
  define s1 where "s1 = s\<lparr>healthStore := (healthStore s)
                   (h := (healthStore s h)
                      \<lparr>consecutiveFailures := consecutiveFailures (healthStore s h) + 1\<rparr>),
                 trace := trace s @ [Log LError ''[MMM-Sonos] Poll failed for ${group.Name} (${health.consecutiveFailures}/${maxFailures})'']\<rparr>"
  define s' where "s' = pollGroupSettled grp h m results s"
  have e: "s' = (if m \<le> consecutiveFailures (healthStore s h) + 1 then triggerRediscovery s1 else s1)"
    unfolding s'_def s1_def using pollGroupSettled_failure [OF assms, of grp h m s]
    by (simp add: Let_def)
  have hs: "healthStore s' = healthStore s1"
    by (simp add: e)
  have u1: "undisturbed s s1"
    by (simp add: s1_def undisturbed_def)
  have n1: "newEffects s s1 = [Log LError ''[MMM-Sonos] Poll failed for ${group.Name} (${health.consecutiveFailures}/${maxFailures})'']"
    by (simp add: s1_def)
  have t1: "trace s1 = trace s @ newEffects s s1"
    using u1 by (simp add: undisturbed_def)
  have "trace s' = trace s @ newEffects s s1 @ (if m \<le> consecutiveFailures (healthStore s h) + 1 then newEffects s1 (triggerRediscovery s1) else [])"
    using triggerRediscovery_trace [of s1] t1 by (simp add: e)
  then have n: "newEffects s s' = newEffects s s1 @ (if m \<le> consecutiveFailures (healthStore s h) + 1 then newEffects s1 (triggerRediscovery s1) else [])"
    by (rule newEffects_append)
  have no: "filter isNotification (newEffects s s') = []"
    using triggerRediscovery_trace [of s1] by (simp add: n n1)
  have a: "consecutiveFailures (healthStore s' h) = consecutiveFailures (healthStore s h) + 1"
    "lastTrack (healthStore s' h) = lastTrack (healthStore s h)"
    "lastVolume (healthStore s' h) = lastVolume (healthStore s h)"
    "lastMuted (healthStore s' h) = lastMuted (healthStore s h)"
    "playState (healthStore s' h) = playState (healthStore s h)"
    "device (healthStore s' h) = device (healthStore s h)"
    "\<forall>h'. h' \<noteq> h \<longrightarrow> healthStore s' h' = healthStore s h'"
    by (simp_all add: hs) (simp_all add: s1_def)
  have b: "consecutiveFailures (healthStore s h) + 1 < m \<longrightarrow> undisturbed s s'"
    using u1 by (simp add: e)
  have c: "m \<le> consecutiveFailures (healthStore s h) + 1 \<longrightarrow> isRediscovering s'"
    by (simp add: e triggerRediscovery_marks)
  have d0: "\<not> isRediscovering s \<and> isRediscovering s' \<longrightarrow> m \<le> consecutiveFailures (healthStore s h) + 1"
    using undisturbed_fields(1) [OF u1] by (auto simp add: e split: if_splits)
  have "c \<le> m" if "configNumber maxConsecutiveFailures s0 = Some c" for c
    using that by (simp add: m_def maxFailuresOf_def)
  with d0 have d: "\<not> isRediscovering s \<and> isRediscovering s' \<longrightarrow>
           m \<le> consecutiveFailures (healthStore s h) + 1 \<and>
           (\<forall>c. configNumber maxConsecutiveFailures s0 = Some c \<longrightarrow>
                c \<le> consecutiveFailures (healthStore s h) + 1)"
    by fastforce
  show ?thesis
    unfolding Let_def m_def [symmetric] s'_def [symmetric]
    using a no b c d by (intro conjI)
qed

theorem total_poll_failure_counts_once_witness:
  "\<not> anySucceeded allFailed \<and>
   maxFailuresOf stableState = 3 \<and>
   \<not> isRediscovering degradedState \<and>
   (let s' = pollGroupSettled kitchen 0 (maxFailuresOf stableState) allFailed degradedState
    in consecutiveFailures (healthStore s' 0) = 3 \<and>
       lastTrack (healthStore s' 0) = Some song1 \<and>
       filter isNotification (newEffects degradedState s') = [] \<and>
       isRediscovering s') \<and>
   (let s' = pollGroupSettled kitchen 0 (maxFailuresOf stableState) allFailed stableState
    in consecutiveFailures (healthStore s' 0) = 1 \<and> undisturbed stableState s')"
proof -
  have h: "\<not> anySucceeded allFailed"
    by (simp add: anySucceeded_def allFailed_def)
  have m: "maxFailuresOf stableState = 3"
    by (simp add: maxFailuresOf_def configNumber_def stableState_def defaultConfig_def)
  from total_poll_failure_counts_once [OF h, of stableState kitchen 0 degradedState]
    total_poll_failure_counts_once [OF h, of stableState kitchen 0 stableState]
  show ?thesis
    using h m
    by (simp add: Let_def degradedState_def stableState_def updateHealth_def initialHealth_def)
qed

section \<open>Track changes are detected on title, artist, album and duration\<close>

text \<open>
  Claim C4. The poll compares the stored and the delivered track with \<open>!==\<close> on
  title, artist, album and duration, and \<open>NaN !== NaN\<close> holds. The kitchen's health
  object stores a radio track whose duration is \<open>NaN\<close>, and a poll delivers that very
  track: title, artist, album, duration and URI are the stored ones. The poll sends a
  track notification all the same, and so does the poll after it.
\<close>

theorem nan_duration_track_renotified:
  "lastTrack (healthStore radioState 0) = Some radioTrack \<and>
   trackResult radioResults = Fulfilled (Some radioTrack) \<and>
   filter isTrackEvent
     (newEffects radioState (pollGroupSettled kitchen 0 3 radioResults radioState)) =
     [SendSocketNotification (SET_SONOS_CURRENT_TRACK kitchen radioTrack)] \<and>
   lastTrack (healthStore (pollGroupSettled kitchen 0 3 radioResults radioState) 0) =
     Some radioTrack \<and>
   filter isTrackEvent
     (newEffects (pollGroupSettled kitchen 0 3 radioResults radioState)
        (pollGroupSettled kitchen 0 3 radioResults
           (pollGroupSettled kitchen 0 3 radioResults radioState))) =
     [SendSocketNotification (SET_SONOS_CURRENT_TRACK kitchen radioTrack)]"
proof -
  have r: "trackResult radioResults = Fulfilled (Some radioTrack)"
    by (simp add: radioResults_def)
  have any: "anySucceeded radioResults"
    by (simp add: anySucceeded_def r)
  have st: "lastTrack (healthStore radioState 0) = Some radioTrack"
    by (simp add: radioState_def updateHealth_def)
  have ch: "trackChanged (Some radioTrack) radioTrack"
    by (simp add: trackChanged_def radioTrack_def)
  note e = pollGroupSettled_success [OF any, of kitchen 0 3]
  have st1: "lastTrack (healthStore (pollGroupSettled kitchen 0 3 radioResults radioState) 0) =
      Some radioTrack"
    by (simp add: e st r trackAfter_def ch)
  have ev: "filter isTrackEvent (newEffects s (pollGroupSettled kitchen 0 3 radioResults s)) =
      [SendSocketNotification (SET_SONOS_CURRENT_TRACK kitchen radioTrack)]"
    if "lastTrack (healthStore s 0) = Some radioTrack" for s
    using that by (simp add: e r trackEvents_def ch)
  show ?thesis
    using st r ev [OF st] st1 ev [OF st1] by (intro conjI)
qed

section \<open>The delay of the next poll\<close>

text \<open>
  Claim C5, as amended. With a playing interval and an idle interval configured, the
  playing interval not 0, \<open>schedulePoll\<close> arms the poll timer with the delay
  \<open>getPollingInterval\<close>: the configured \<open>pollingIntervalPlaying\<close> if the health
  object of at least one tracked group has \<open>playState\<close> equal to the string playing,
  otherwise the configured \<open>pollingIntervalIdle\<close>, where an idle interval configured
  as 0 counts as 60000. With 15000 and 60000 configured, one playing group gives 15000
  and all groups idle give 60000. A playing interval configured as 0 switches polling
  off: in any such state \<open>u\<close> the callback that starts polling after the
  subscriptions arms no poll timer.
\<close>

theorem poll_delay_adaptive:
  assumes "configNumber pollingIntervalPlaying s = Some p" and "p \<noteq> 0"
    and "configNumber pollingIntervalIdle s = Some i"
  shows
    "let playing = (\<exists>g h. map_of (groupHealth s) g = Some h \<and>
                          playState (healthStore s h) = JStr ''playing'')
     in getPollingInterval s = (if playing then p else if i = 0 then 60000 else i) \<and>
        last (trace (schedulePoll s)) =
          SetTimeout (nextTimer s) PollCycle (getPollingInterval s) \<and>
        (configNumber pollingIntervalPlaying u = Some 0 \<longrightarrow>
           \<not> list_ex armsPollTimer (newEffects u (subscriptionsSettled u)))"
proof -
  have a: "getPollingInterval s =
      (if isAnyGroupPlaying s then p else if i = 0 then 60000 else i)"
    using assms by (simp add: getPollingInterval_def Let_def)
  have b: "last (trace (schedulePoll s)) =
      SetTimeout (nextTimer s) PollCycle (getPollingInterval s)"
    by (simp add: schedulePoll_update)
  have c: "configNumber pollingIntervalPlaying u = Some 0 \<longrightarrow>
      \<not> list_ex armsPollTimer (newEffects u (subscriptionsSettled u))"
    using subscriptionsSettled_polling_off [of u] by blast
  show ?thesis
    unfolding Let_def isAnyGroupPlaying_iff [symmetric] using a b c by (intro conjI)
qed

theorem poll_delay_adaptive_witness:
  "configNumber pollingIntervalPlaying stableState = Some 15000 \<and>
   configNumber pollingIntervalIdle stableState = Some 60000 \<and>
   playState (healthStore stableState 0) = JStr ''playing'' \<and>
   getPollingInterval stableState = 15000 \<and>
   last (trace (schedulePoll stableState)) = SetTimeout 2 PollCycle 15000 \<and>
   getPollingInterval idleState = 60000 \<and>
   configNumber pollingIntervalPlaying zeroPlayingState = Some 0 \<and>
   \<not> list_ex armsPollTimer (newEffects zeroPlayingState (subscriptionsSettled zeroPlayingState))"
proof -
  have c: "configNumber pollingIntervalPlaying stableState = Some 15000"
    "configNumber pollingIntervalIdle stableState = Some 60000"
    "configNumber pollingIntervalPlaying idleState = Some 15000"
    "configNumber pollingIntervalIdle idleState = Some 60000"
    "nextTimer stableState = 2"
    "configNumber pollingIntervalPlaying zeroPlayingState = Some 0"
    by (simp_all add: configNumber_def stableState_def idleState_def zeroPlayingState_def
        defaultConfig_def updateHealth_def)
  have n: "(15000 :: int) \<noteq> 0"
    by simp
  have p: "\<exists>g h. map_of (groupHealth stableState) g = Some h \<and>
      playState (healthStore stableState h) = JStr ''playing''"
    by (rule exI [of _ "ID kitchen"], rule exI [of _ 0]) (simp add: stableState_def)
  have q: "\<not> (\<exists>g h. map_of (groupHealth idleState) g = Some h \<and>
      playState (healthStore idleState h) = JStr ''playing'')"
    by (auto simp add: idleState_def stableState_def updateHealth_def initialHealth_def
        split: if_splits)
  have r: "playState (healthStore stableState 0) = JStr ''playing''"
    by (simp add: stableState_def)
  from poll_delay_adaptive [OF c(1) n c(2), of zeroPlayingState]
    poll_delay_adaptive [OF c(3) n c(4), of zeroPlayingState]
  show ?thesis
    using c p q r by (simp add: Let_def)
qed

text \<open>
  The claim as stated fails for an idle interval configured as 0: with no group playing
  the delay is 60000, not the configured value.
\<close>

theorem idle_interval_zero_counterexample:
  "configNumber pollingIntervalIdle zeroIdleState = Some 0 \<and>
   \<not> isAnyGroupPlaying zeroIdleState \<and>
   getPollingInterval zeroIdleState = 60000 \<and>
   Some (getPollingInterval zeroIdleState) \<noteq> configNumber pollingIntervalIdle zeroIdleState"
  by (simp add: getPollingInterval_def isAnyGroupPlaying_def objectValues_def configNumber_def
      zeroIdleState_def idleState_def stableState_def defaultConfig_def updateHealth_def
      initialHealth_def kitchen_def bedroom_def)

section \<open>A reset stops the poll chain\<close>




section \<open>The subscription health check\<close>

text \<open>
  Claim C7, as amended. Without \<open>autoResubscribe\<close> in the configuration
  \<open>startSubscriptionHealthCheck\<close> arms no timer. A firing in which no tracked group
  has \<open>playState\<close> equal to the string playing only writes debug lines. Otherwise
  the firing handles the groups of \<open>this.groups\<close> in order, each in the state the
  previous one left. A group with no health object or no stored device handle leads to
  a call of \<open>triggerRediscovery\<close> and to no device call. For a group with a stored
  handle the listener's subscription object for that handle is looked up: if there is
  none, \<open>triggerRediscovery\<close> is called and no renewal is invoked; if there is one,
  its renewal is invoked under the timeout \<open>apiCall\<close> (5000 when that is missing or
  0) and the helper is otherwise undisturbed. When the renewal fails or is still
  pending at the timeout, \<open>triggerRediscovery\<close> is called; when it succeeds, only a
  debug line is written.
\<close>

theorem subscription_check_escalates:
  "(\<not> (case config s of None \<Rightarrow> False | Some c \<Rightarrow> autoResubscribe c) \<longrightarrow>
      startSubscriptionHealthCheck s =
        debugLog ''Auto-resubscribe disabled, skipping subscription health check'' s) \<and>
   (\<not> isAnyGroupPlaying s \<longrightarrow>
      subscriptionCheck s =
        debugLog ''Skipping subscription check - no music playing''
          (debugLog ''Subscription health check triggered'' s)) \<and>
   (isAnyGroupPlaying s \<and> groups s \<noteq> [] \<longrightarrow>
      subscriptionCheck s =
        fold checkGroupSubscription (groups s)
          (debugLog ''Listener has ${listener._deviceSubscriptions?.length || 0} total subscriptions''
            (debugLog ''Running subscription health check for ${this.groups.length} groups''
              (debugLog ''Subscription health check triggered'' s)))) \<and>
   (let handle = (case map_of (groupHealth s) (ID grp) of
                    None \<Rightarrow> None
                  | Some h \<Rightarrow> device (healthStore s h));
        s' = checkGroupSubscription grp s
    in case handle of
         None \<Rightarrow>
           s' = triggerRediscovery
                  (debugLog ''[${group.Name}] No device reference stored, triggering rediscovery'' s) \<and>
           isRediscovering s' \<and> filter isDeviceCall (newEffects s s') = []
       | Some d \<Rightarrow>
           if (case deviceSubscriptions s of None \<Rightarrow> False | Some subs \<Rightarrow> d \<in> set subs)
           then undisturbed s s' \<and>
                filter isDeviceCall (newEffects s s') =
                  [RenewAllSubscriptions d
                     (case apiCall (currentTimeouts s) of
                        None \<Rightarrow> 5000 | Some n \<Rightarrow> if n = 0 then 5000 else n)]
           else isRediscovering s' \<and> filter isDeviceCall (newEffects s s') = []) \<and>
   (case outcome of
      Resolves x \<Rightarrow>
        renewalSettled (withTimeout outcome message) s =
          debugLog ''[${group.Name}] Subscription renewal succeeded'' s
    | _ \<Rightarrow>
        renewalSettled (withTimeout outcome message) s =
          triggerRediscovery
            (emit [Log LWarn ''[MMM-Sonos] Renewal failed for ${group.Name}: ${err.message}, triggering rediscovery''] s) \<and>
        isRediscovering (renewalSettled (withTimeout outcome message) s))"
proof -
  have a: "\<not> (case config s of None \<Rightarrow> False | Some c \<Rightarrow> autoResubscribe c) \<longrightarrow>
      startSubscriptionHealthCheck s =
        debugLog ''Auto-resubscribe disabled, skipping subscription health check'' s"
    by (simp add: startSubscriptionHealthCheck_def)
  have b: "\<not> isAnyGroupPlaying s \<longrightarrow>
      subscriptionCheck s =
        debugLog ''Skipping subscription check - no music playing''
          (debugLog ''Subscription health check triggered'' s)"
    by (simp add: subscriptionCheck_def Let_def debugLog_update)
  have c: "isAnyGroupPlaying s \<and> groups s \<noteq> [] \<longrightarrow>
      subscriptionCheck s =
        fold checkGroupSubscription (groups s)
          (debugLog ''Listener has ${listener._deviceSubscriptions?.length || 0} total subscriptions''
            (debugLog ''Running subscription health check for ${this.groups.length} groups''
              (debugLog ''Subscription health check triggered'' s)))"
    by (simp add: subscriptionCheck_def Let_def debugLog_update)
  have d: "case (case map_of (groupHealth s) (ID grp) of
                    None \<Rightarrow> None
                  | Some h \<Rightarrow> device (healthStore s h)) of
         None \<Rightarrow>
           checkGroupSubscription grp s = triggerRediscovery
                  (debugLog ''[${group.Name}] No device reference stored, triggering rediscovery'' s) \<and>
           isRediscovering (checkGroupSubscription grp s) \<and>
           filter isDeviceCall (newEffects s (checkGroupSubscription grp s)) = []
       | Some d \<Rightarrow>
           if (case deviceSubscriptions s of None \<Rightarrow> False | Some subs \<Rightarrow> d \<in> set subs)
           then undisturbed s (checkGroupSubscription grp s) \<and>
                filter isDeviceCall (newEffects s (checkGroupSubscription grp s)) =
                  [RenewAllSubscriptions d
                     (case apiCall (currentTimeouts s) of
                        None \<Rightarrow> 5000 | Some n \<Rightarrow> if n = 0 then 5000 else n)]
           else isRediscovering (checkGroupSubscription grp s) \<and>
                filter isDeviceCall (newEffects s (checkGroupSubscription grp s)) = []"
  proof (cases "case map_of (groupHealth s) (ID grp) of
                    None \<Rightarrow> None
                  | Some h \<Rightarrow> device (healthStore s h)")
    case None
    then show ?thesis
      by (simp add: checkGroupSubscription_def triggerRediscovery_marks debugLog_then_trigger)
  next
    case (Some d)
    have e: "checkGroupSubscription grp s = renewDeviceSubscriptions d grp s"
      using Some by (simp add: checkGroupSubscription_def)
    show ?thesis
    proof (cases "case deviceSubscriptions s of None \<Rightarrow> False | Some subs \<Rightarrow> d \<in> set subs")
      case True
      have t: "orDefault (apiCall (currentTimeouts s)) 5000 =
          (case apiCall (currentTimeouts s) of
             None \<Rightarrow> 5000 | Some n \<Rightarrow> if n = 0 then 5000 else n)"
        by (simp split: option.splits)
      show ?thesis
        using Some True
        by (simp add: e renewDeviceSubscriptions_cases undisturbed_def newEffects_def t)
    next
      case False
      let ?s1 = "debugLog ''[${group.Name}] Device ${device.host}, _isSubscribed: ${device._isSubscribed}'' s"
      let ?s2 = "debugLog ''[${group.Name}] No DeviceSubscription found, triggering rediscovery'' ?s1"
      have r: "renewDeviceSubscriptions d grp s = triggerRediscovery ?s2"
        using False by (simp add: renewDeviceSubscriptions_cases)
      have "trace (triggerRediscovery ?s2) =
          trace s @ debugLine (debug s) ''[${group.Name}] Device ${device.host}, _isSubscribed: ${device._isSubscribed}'' @
            debugLine (debug s) ''[${group.Name}] No DeviceSubscription found, triggering rediscovery'' @
            newEffects ?s2 (triggerRediscovery ?s2)"
        using triggerRediscovery_calls [of ?s2] by (simp add: debugLog_update)
      then have "newEffects s (triggerRediscovery ?s2) =
          debugLine (debug s) ''[${group.Name}] Device ${device.host}, _isSubscribed: ${device._isSubscribed}'' @
            debugLine (debug s) ''[${group.Name}] No DeviceSubscription found, triggering rediscovery'' @
            newEffects ?s2 (triggerRediscovery ?s2)"
        by (rule newEffects_append)
      then have "filter isDeviceCall (newEffects s (triggerRediscovery ?s2)) = []"
        using triggerRediscovery_calls [of ?s2] by simp
      then show ?thesis
        using Some False by (simp add: e r triggerRediscovery_marks)
    qed
  qed
  have f: "case outcome of
      Resolves x \<Rightarrow>
        renewalSettled (withTimeout outcome message) s =
          debugLog ''[${group.Name}] Subscription renewal succeeded'' s
    | _ \<Rightarrow>
        renewalSettled (withTimeout outcome message) s =
          triggerRediscovery
            (emit [Log LWarn ''[MMM-Sonos] Renewal failed for ${group.Name}: ${err.message}, triggering rediscovery''] s) \<and>
        isRediscovering (renewalSettled (withTimeout outcome message) s)"
    by (cases outcome) (simp_all add: renewalSettled_def triggerRediscovery_marks)
  show ?thesis
    unfolding Let_def using a b c d f by (intro conjI)
qed

theorem subscription_check_escalates_witness:
  "(let s' = checkGroupSubscription kitchen stableState
    in undisturbed stableState s' \<and>
       filter isDeviceCall (newEffects stableState s') = [RenewAllSubscriptions 1 5000]) \<and>
   isRediscovering
     (renewalSettled (withTimeout Pending ''Subscription renewal timed out for ${group.Name}'')
        stableState)"
proof -
  have a: "map_of (groupHealth stableState) (ID kitchen) = Some 0"
    "device (healthStore stableState 0) = Some 1"
    "deviceSubscriptions stableState = Some [0, 1, 2]"
    "apiCall (currentTimeouts stableState) = Some 5000"
    by (simp_all add: stableState_def kitchen_def bedroom_def currentTimeouts_def
        defaultConfig_def DEFAULT_TIMEOUTS_def)
  note t = subscription_check_escalates [of stableState kitchen Pending
      "''Subscription renewal timed out for ${group.Name}''"]
  note d = t [THEN conjunct2, THEN conjunct2, THEN conjunct2, THEN conjunct1]
  note f = t [THEN conjunct2, THEN conjunct2, THEN conjunct2, THEN conjunct2]
  from d have "undisturbed stableState (checkGroupSubscription kitchen stableState) \<and>
       filter isDeviceCall (newEffects stableState (checkGroupSubscription kitchen stableState)) =
         [RenewAllSubscriptions 1 5000]"
    by (simp add: Let_def a)
  moreover from f have "isRediscovering
     (renewalSettled (withTimeout Pending ''Subscription renewal timed out for ${group.Name}'')
        stableState)"
    by auto
  ultimately show ?thesis
    by (simp add: Let_def)
qed

text \<open>
  The claim as stated fails where a stored handle has no subscription object in the
  listener: auto-resubscribe is on, the kitchen is playing and its health object holds
  handle 1, yet the firing invokes no renewal at all and starts the recovery.
\<close>

theorem renewal_not_invoked_counterexample:
  "config unsubscribedState = Some defaultConfig \<and>
   autoResubscribe defaultConfig \<and>
   isAnyGroupPlaying unsubscribedState \<and>
   map_of (groupHealth unsubscribedState) (ID kitchen) = Some 0 \<and>
   device (healthStore unsubscribedState 0) = Some 1 \<and>
   filter isRenewal (newEffects unsubscribedState (subscriptionCheck unsubscribedState)) = [] \<and>
   isRediscovering (subscriptionCheck unsubscribedState)"
  by code_simp

section \<open>Push events and polls share the health object\<close>

text \<open>
  Claim C8, as amended. A push event for a field of a tracked group writes the
  delivered value into the group's health object and sends exactly one notification,
  without comparing. A poll of that group that settles next and delivers an equal
  value for that field (for a track: title, artist, album and duration each equal under
  \<open>===\<close>) sends no notification for that field.
\<close>

theorem push_then_poll_sends_once:
  assumes "map_of (groupHealth s) (ID grp) = Some h"
  shows
    "(let s1 = onCurrentTrack grp t s
      in lastTrack (healthStore s1 h) = Some t \<and>
         filter isNotification (newEffects s s1) =
           [SendSocketNotification (SET_SONOS_CURRENT_TRACK grp t)] \<and>
         (\<forall>t'. trackResult results = Fulfilled (Some t') \<and> sameTrackTuple t t' \<longrightarrow>
            filter isTrackEvent (newEffects s1 (pollGroupSettled grp h m results s1)) = [])) \<and>
     (let s1 = onVolume grp v s
      in lastVolume (healthStore s1 h) = v \<and>
         filter isNotification (newEffects s s1) =
           [SendSocketNotification (SET_SONOS_VOLUME grp v)] \<and>
         (volumeResult results = Fulfilled v \<longrightarrow>
            filter isVolumeEvent (newEffects s1 (pollGroupSettled grp h m results s1)) = [])) \<and>
     (let s1 = onMuted grp v s
      in lastMuted (healthStore s1 h) = v \<and>
         filter isNotification (newEffects s s1) =
           [SendSocketNotification (SET_SONOS_MUTE grp v)] \<and>
         (mutedResult results = Fulfilled v \<longrightarrow>
            filter isMuteEvent (newEffects s1 (pollGroupSettled grp h m results s1)) = [])) \<and>
     (let s1 = onPlayState grp v s
      in playState (healthStore s1 h) = v \<and>
         filter isNotification (newEffects s s1) =
           [SendSocketNotification (SET_SONOS_PLAY_STATE grp v)] \<and>
         (stateResult results = Fulfilled v \<longrightarrow>
            filter isStateEvent (newEffects s1 (pollGroupSettled grp h m results s1)) = []))"
proof -
  note sync = syncHealth_update [OF assms]
  have g: "map_of (groupHealth (s\<lparr>trace := es\<rparr>)) (ID grp) = Some h" for es
    using assms by simp
  have tr: "let s1 = onCurrentTrack grp t s
      in lastTrack (healthStore s1 h) = Some t \<and>
         filter isNotification (newEffects s s1) =
           [SendSocketNotification (SET_SONOS_CURRENT_TRACK grp t)] \<and>
         (\<forall>t'. trackResult results = Fulfilled (Some t') \<and> sameTrackTuple t t' \<longrightarrow>
            filter isTrackEvent (newEffects s1 (pollGroupSettled grp h m results s1)) = [])"
    by (simp add: Let_def onCurrentTrack_def sequence_def emit_def syncHealth_update [OF g]
        newEffects_def poll_track_events [unfolded newEffects_def] trackChanged_tuple)
  have vo: "let s1 = onVolume grp v s
      in lastVolume (healthStore s1 h) = v \<and>
         filter isNotification (newEffects s s1) =
           [SendSocketNotification (SET_SONOS_VOLUME grp v)] \<and>
         (volumeResult results = Fulfilled v \<longrightarrow>
            filter isVolumeEvent (newEffects s1 (pollGroupSettled grp h m results s1)) = [])"
    by (simp add: Let_def onVolume_def sequence_def emit_def debugLog_update
        syncHealth_update [OF g] newEffects_def poll_volume_events [unfolded newEffects_def])
  have mu: "let s1 = onMuted grp v s
      in lastMuted (healthStore s1 h) = v \<and>
         filter isNotification (newEffects s s1) =
           [SendSocketNotification (SET_SONOS_MUTE grp v)] \<and>
         (mutedResult results = Fulfilled v \<longrightarrow>
            filter isMuteEvent (newEffects s1 (pollGroupSettled grp h m results s1)) = [])"
    by (simp add: Let_def onMuted_def sequence_def emit_def debugLog_update
        syncHealth_update [OF g] newEffects_def poll_mute_events [unfolded newEffects_def])
  have st: "let s1 = onPlayState grp v s
      in playState (healthStore s1 h) = v \<and>
         filter isNotification (newEffects s s1) =
           [SendSocketNotification (SET_SONOS_PLAY_STATE grp v)] \<and>
         (stateResult results = Fulfilled v \<longrightarrow>
            filter isStateEvent (newEffects s1 (pollGroupSettled grp h m results s1)) = [])"
    by (simp add: Let_def onPlayState_def sequence_def emit_def
        syncHealth_update [OF g] newEffects_def poll_state_events [unfolded newEffects_def])
  show ?thesis
    using tr vo mu st by (intro conjI)
qed

theorem push_then_poll_sends_once_witness:
  "map_of (groupHealth stableState) (ID bedroom) = Some 1 \<and>
   lastTrack (healthStore stableState 1) = None \<and>
   (let s1 = onCurrentTrack bedroom song1 stableState
    in lastTrack (healthStore s1 1) = Some song1 \<and>
       filter isNotification (newEffects stableState s1) =
         [SendSocketNotification (SET_SONOS_CURRENT_TRACK bedroom song1)] \<and>
       filter isTrackEvent (newEffects s1 (pollGroupSettled bedroom 1 3 partialResults s1)) = [])"
proof -
  have h: "map_of (groupHealth stableState) (ID bedroom) = Some 1"
    by (simp add: stableState_def kitchen_def bedroom_def)
  have n: "lastTrack (healthStore stableState 1) = None"
    by (simp add: stableState_def initialHealth_def)
  have r: "trackResult partialResults = Fulfilled (Some (song1\<lparr>uri := JStr ''x-sonos-vli:stream-2''\<rparr>))"
    "sameTrackTuple song1 (song1\<lparr>uri := JStr ''x-sonos-vli:stream-2''\<rparr>)"
    by (simp_all add: partialResults_def sameTrackTuple_def song1_def)
  note t = push_then_poll_sends_once [OF h, of song1 partialResults 3, THEN conjunct1]
  from t r have "let s1 = onCurrentTrack bedroom song1 stableState
    in lastTrack (healthStore s1 1) = Some song1 \<and>
       filter isNotification (newEffects stableState s1) =
         [SendSocketNotification (SET_SONOS_CURRENT_TRACK bedroom song1)] \<and>
       filter isTrackEvent (newEffects s1 (pollGroupSettled bedroom 1 3 partialResults s1)) = []"
    unfolding Let_def by blast
  with h n show ?thesis
    by (intro conjI)
qed

text \<open>
  The symmetric half of the claim as stated fails: a push handler does not compare, so
  a push event that arrives after a poll has reported the same value sends that value
  a second time. Below the poll reports volume 35 and the push event delivers 35.
\<close>

theorem poll_then_push_duplicate_counterexample:
  "map_of (groupHealth stableState) (ID kitchen) = Some 0 \<and>
   volumeResult partialResults = Fulfilled (JNum 35) \<and>
   filter isVolumeEvent
     (newEffects stableState
        (onVolume kitchen (JNum 35) (pollGroupSettled kitchen 0 3 partialResults stableState))) =
     [SendSocketNotification (SET_SONOS_VOLUME kitchen (JNum 35)),
      SendSocketNotification (SET_SONOS_VOLUME kitchen (JNum 35))]"
  by code_simp

section \<open>Setting the volume\<close>

text \<open>
  Claim C9, as amended. For a stored group, \<open>handleSetVolume\<close> forwards
  \<open>max 0 (min 100 n)\<close> where \<open>n\<close> is the result of \<open>parseInt(volume, 10)\<close>, in one
  \<open>setVolume\<close> call; the forwarded value lies between 0 and 100. An integer-valued
  number below \<open>10^21\<close> in magnitude (JavaScript prints it in plain decimal
  notation) is its own parse result, so it is forwarded clamped: 150 as 100, a negative
  number as 0. From \<open>10^21\<close> on the exponent form is parsed: \<open>10^21\<close> itself is
  forwarded as 1. When \<open>parseInt\<close> yields \<open>NaN\<close> (the input has no decimal digit
  after optional white space and sign, as the string abc, \<open>null\<close>, \<open>undefined\<close>
  and the booleans) the handler logs an error and makes no call.
\<close>

theorem set_volume_forwards_clamped_parse:
  assumes "map_of (groupsById s) groupId = Some grp"
  shows
    "(case parseInt volume of
        Some n \<Rightarrow>
          handleSetVolume groupId volume s =
            Inr (emit [CoordinatorCall grp (SetVolume (max 0 (min 100 n)))] s) \<and>
          0 \<le> max 0 (min 100 n) \<and> max 0 (min 100 n) \<le> 100
      | None \<Rightarrow>
          handleSetVolume groupId volume s =
            Inr (emit [Log LError ''[MMM-Sonos] Invalid volume value''] s)) \<and>
     (\<bar>k\<bar> < 10 ^ 21 \<longrightarrow>
        parseInt (JNum k) = Some k \<and>
        handleSetVolume groupId (JNum k) s =
          Inr (emit [CoordinatorCall grp
                  (SetVolume (if k < 0 then 0 else if 100 < k then 100 else k))] s)) \<and>
     parseInt (JStr ''abc'') = None \<and> parseInt JNull = None \<and>
     parseInt JUndefined = None \<and> parseInt (JBool b) = None"
proof -
  have own: "getProperty (groupsById s) groupId = Own grp"
    using assms by (simp add: getProperty_def)
  have a: "case parseInt volume of
        Some n \<Rightarrow>
          handleSetVolume groupId volume s =
            Inr (emit [CoordinatorCall grp (SetVolume (max 0 (min 100 n)))] s) \<and>
          0 \<le> max 0 (min 100 n) \<and> max 0 (min 100 n) \<le> 100
      | None \<Rightarrow>
          handleSetVolume groupId volume s =
            Inr (emit [Log LError ''[MMM-Sonos] Invalid volume value''] s)"
    by (simp add: handleSetVolume_def own split: option.splits)
  have b: "parseInt (JNum k) = Some k \<and>
      handleSetVolume groupId (JNum k) s =
        Inr (emit [CoordinatorCall grp
                (SetVolume (if k < 0 then 0 else if 100 < k then 100 else k))] s)"
    if "\<bar>k\<bar> < 10 ^ 21"
    using parseInt_number [OF that]
    by (simp add: handleSetVolume_def own max_def min_def)
  have c: "parseInt (JStr ''abc'') = None" "parseInt JNull = None" "parseInt JUndefined = None"
    by (simp_all add: parseInt_def isStrWhiteSpaceChar_def isDigit_def)
  have d: "parseInt (JBool b) = None"
    by (cases b) (simp_all add: parseInt_def isStrWhiteSpaceChar_def isDigit_def)
  show ?thesis
    using a b c d by blast
qed

theorem set_volume_forwards_clamped_parse_witness:
  "map_of (groupsById stableState) (ID kitchen) = Some kitchen \<and>
   handleSetVolume (ID kitchen) (JNum 150) stableState =
     Inr (emit [CoordinatorCall kitchen (SetVolume 100)] stableState) \<and>
   handleSetVolume (ID kitchen) (JNum (- 5)) stableState =
     Inr (emit [CoordinatorCall kitchen (SetVolume 0)] stableState) \<and>
   handleSetVolume (ID kitchen) (JStr ''abc'') stableState =
     Inr (emit [Log LError ''[MMM-Sonos] Invalid volume value''] stableState) \<and>
   handleSetVolume (ID kitchen) (JNum 1000000000000000000000) stableState =
     Inr (emit [CoordinatorCall kitchen (SetVolume 1)] stableState)"
proof -
  have h: "map_of (groupsById stableState) (ID kitchen) = Some kitchen"
    by (simp add: stableState_def)
  note t = set_volume_forwards_clamped_parse [OF h]
  have "handleSetVolume (ID kitchen) (JNum 150) stableState =
     Inr (emit [CoordinatorCall kitchen (SetVolume 100)] stableState)"
    using t [of "JNum 150" 150 True] by auto
  moreover have "handleSetVolume (ID kitchen) (JNum (- 5)) stableState =
     Inr (emit [CoordinatorCall kitchen (SetVolume 0)] stableState)"
    using t [of "JNum (- 5)" "- 5" True] by auto
  moreover have "handleSetVolume (ID kitchen) (JStr ''abc'') stableState =
     Inr (emit [Log LError ''[MMM-Sonos] Invalid volume value''] stableState)"
    using t [of "JStr ''abc''" 0 True] by auto
  moreover have "handleSetVolume (ID kitchen) (JNum 1000000000000000000000) stableState =
     Inr (emit [CoordinatorCall kitchen (SetVolume 1)] stableState)"
    using t [of "JNum 1000000000000000000000" 0 True] by (simp add: parseInt_1e21)
  ultimately show ?thesis
    using h by (intro conjI)
qed

text \<open>
  The claim as stated fails for a non-numeric string that starts with digits:
  \<open>parseInt\<close> reads the leading 12 of the string 12abc, and 12 is forwarded.
\<close>

theorem set_volume_leading_digits_counterexample:
  "parseInt (JStr ''12abc'') = Some 12 \<and>
   handleSetVolume (ID kitchen) (JStr ''12abc'') stableState =
     Inr (emit [CoordinatorCall kitchen (SetVolume 12)] stableState)"
  by (simp add: handleSetVolume_def getProperty_def parseInt_def isStrWhiteSpaceChar_def
      isDigit_def digitValue_def stableState_def kitchen_def bedroom_def)

section \<open>Commands for an unknown group\<close>

text \<open>
  Claim C10. \<open>groupsById\<close> is a plain object, and the handlers test the looked up
  value for truthiness. The name constructor is no key of the stored \<open>groupsById\<close>,
  but the lookup finds the member inherited from \<open>Object.prototype\<close>. The guard
  is passed, and \<open>group.CoordinatorDevice()\<close> throws a \<open>TypeError\<close>: each of
  \<open>handleTogglePlayPause\<close>, \<open>handleNext\<close> and \<open>handleSetVolume\<close> (with a
  valid volume) ends with the exception, without the error line and without returning.
\<close>

theorem inherited_name_command_throws:
  "''constructor'' \<notin> fst ` set (groupsById stableState) \<and>
   getProperty (groupsById stableState) ''constructor'' = Inherited \<and>
   handleTogglePlayPause ''constructor'' stableState = Inl TypeError \<and>
   handleNext ''constructor'' stableState = Inl TypeError \<and>
   handleSetVolume ''constructor'' (JNum 40) stableState = Inl TypeError"
proof -
  have n: "''constructor'' \<notin> fst ` set (groupsById stableState)"
    by (simp add: stableState_def kitchen_def bedroom_def)
  then have "map_of (groupsById stableState) ''constructor'' = None"
    by (simp add: map_of_eq_None_iff)
  then have i: "getProperty (groupsById stableState) ''constructor'' = Inherited"
    by (simp add: getProperty_def objectPrototypeNames_def)
  have p: "parseInt (JNum 40) = Some 40"
    by (rule parseInt_number) simp
  show ?thesis
    using n i by (simp add: handleTogglePlayPause_def handleNext_def handleSetVolume_def p)
qed

end
